theory Spec2Isabelle
  imports Main "HOL-Library.Word"
begin

unbundle bit_operations_syntax

section \<open>The tablet emulation of \<open>examples/tablet.c\<close>\<close>

text \<open>
  The program emulates a pen tablet through the raw-gadget interface. Its globals are
  threaded through the model as a record, every \<open>exit(EXIT_FAILURE)\<close> and every failed
  \<open>assert\<close> is a value of type \<open>fatal\<close>, and the calls into the kernel are recorded as a
  trace of \<open>action\<close>s whose results are supplied by an environment record.
\<close>

type_synonym u8 = "8 word"
type_synonym u16 = "16 word"
type_synonym u32 = "32 word"
type_synonym u64 = "64 word"

subsection \<open>The report generator: \<open>step\<close> and \<open>ep_int_in_loop\<close>\<close>

datatype motion_direction = MOTION_RIGHT | MOTION_DOWN | MOTION_LEFT | MOTION_UP

record pen_report =
  id_report :: u8
  tip :: bool
  barrel :: bool
  eraser :: bool
  invert :: bool
  xxx0 :: bool
  inrange :: bool
  x :: u16
  y :: u16
  pressure :: u16

definition BORDER :: int where "BORDER = 2000"
definition MAX_X :: int where "MAX_X = 16000"
definition MAX_Y :: int where "MAX_Y = 9000"
definition STEPSIZE :: int where "STEPSIZE = 100"

text \<open>
  \<open>step\<close> takes the report and the function's static \<open>direction\<close> and returns both.
  The coordinates are \<open>__u16\<close>: \<open>+=\<close> and \<open>-=\<close> compute in \<open>int\<close> and store the
  result modulo \<open>2 ^ 16\<close> (\<open>word_of_int\<close>); the comparisons are made on the stored
  value, promoted to \<open>int\<close> (\<open>uint\<close>).
\<close>

fun step :: "pen_report \<times> motion_direction \<Rightarrow> pen_report \<times> motion_direction" where
  "step (report, MOTION_RIGHT) =
     (let report = report\<lparr>x := word_of_int (uint (x report) + STEPSIZE)\<rparr>
      in if uint (x report) \<ge> MAX_X - BORDER then (report, MOTION_DOWN)
         else (report, MOTION_RIGHT))"
| "step (report, MOTION_DOWN) =
     (let report = report\<lparr>y := word_of_int (uint (y report) + STEPSIZE)\<rparr>
      in if uint (y report) \<ge> MAX_Y - BORDER then (report, MOTION_LEFT)
         else (report, MOTION_DOWN))"
| "step (report, MOTION_LEFT) =
     (let report = report\<lparr>x := word_of_int (uint (x report) - STEPSIZE)\<rparr>
      in if uint (x report) \<le> BORDER then (report, MOTION_UP)
         else (report, MOTION_LEFT))"
| "step (report, MOTION_UP) =
     (let report = report\<lparr>y := word_of_int (uint (y report) - STEPSIZE)\<rparr>
      in if uint (y report) \<le> BORDER then (report, MOTION_RIGHT)
         else (report, MOTION_UP))"

text \<open>
  The report that \<open>ep_int_in_loop\<close> starts from, with the initial value of the static
  \<open>direction\<close>.
\<close>

definition initial_report :: pen_report where
  "initial_report =
     \<lparr>id_report = 6, tip = False, barrel = False, eraser = False, invert = False,
      xxx0 = False, inrange = True, x = 2000, y = 2000, pressure = 0\<rparr>"

definition initial_motion :: "pen_report \<times> motion_direction" where
  "initial_motion = (initial_report, MOTION_RIGHT)"

text \<open>
  The state of the generator after \<open>n\<close> iterations of the \<open>while (true)\<close> loop of
  \<open>ep_int_in_loop\<close>, as far as the motion is concerned: each iteration calls \<open>step\<close>
  once on the same report.
\<close>

definition motion_after :: "nat \<Rightarrow> pen_report \<times> motion_direction" where
  "motion_after n = (step ^^ n) initial_motion"

text \<open>The states met while \<open>n\<close> steps are taken from \<open>s\<close>, the first one being \<open>s\<close>.\<close>

fun trajectory :: "nat \<Rightarrow> pen_report \<times> motion_direction \<Rightarrow> (pen_report \<times> motion_direction) list" where
  "trajectory 0 s = []"
| "trajectory (Suc n) s = s # trajectory n (step s)"

text \<open>The clockwise successor of a direction.\<close>

fun clockwise :: "motion_direction \<Rightarrow> motion_direction" where
  "clockwise MOTION_RIGHT = MOTION_DOWN"
| "clockwise MOTION_DOWN = MOTION_LEFT"
| "clockwise MOTION_LEFT = MOTION_UP"
| "clockwise MOTION_UP = MOTION_RIGHT"

subsection \<open>Constants of the Linux headers\<close>

text \<open>
  The program includes \<open><linux/usb/ch9.h>\<close> and \<open><linux/hid.h>\<close>, which are not part
  of the repository. The constants and the four endpoint helpers below have the values
  and bodies those headers give them. They are compared after integer promotion, so they
  are \<open>int\<close>s here and a field is read with \<open>uint\<close> before it is compared.
\<close>

definition USB_DIR_OUT :: int where "USB_DIR_OUT = 0"
definition USB_DIR_IN :: int where "USB_DIR_IN = 0x80"

definition USB_TYPE_MASK :: int where "USB_TYPE_MASK = 0x60"
definition USB_TYPE_STANDARD :: int where "USB_TYPE_STANDARD = 0x00"
definition USB_TYPE_CLASS :: int where "USB_TYPE_CLASS = 0x20"
definition USB_TYPE_VENDOR :: int where "USB_TYPE_VENDOR = 0x40"

definition USB_REQ_GET_DESCRIPTOR :: int where "USB_REQ_GET_DESCRIPTOR = 0x06"
definition USB_REQ_SET_CONFIGURATION :: int where "USB_REQ_SET_CONFIGURATION = 0x09"
definition USB_REQ_GET_INTERFACE :: int where "USB_REQ_GET_INTERFACE = 0x0A"

definition USB_DT_DEVICE :: int where "USB_DT_DEVICE = 0x01"
definition USB_DT_CONFIG :: int where "USB_DT_CONFIG = 0x02"
definition USB_DT_STRING :: int where "USB_DT_STRING = 0x03"
definition USB_DT_INTERFACE :: int where "USB_DT_INTERFACE = 0x04"
definition USB_DT_ENDPOINT :: int where "USB_DT_ENDPOINT = 0x05"
definition USB_DT_DEVICE_QUALIFIER :: int where "USB_DT_DEVICE_QUALIFIER = 0x06"
definition HID_DT_HID :: int where "HID_DT_HID = 0x21"
definition HID_DT_REPORT :: int where "HID_DT_REPORT = 0x22"

definition HID_REQ_SET_REPORT :: int where "HID_REQ_SET_REPORT = 0x09"
definition HID_REQ_SET_IDLE :: int where "HID_REQ_SET_IDLE = 0x0A"
definition HID_REQ_SET_PROTOCOL :: int where "HID_REQ_SET_PROTOCOL = 0x0B"

definition USB_DT_DEVICE_SIZE :: nat where "USB_DT_DEVICE_SIZE = 18"
definition USB_DT_CONFIG_SIZE :: nat where "USB_DT_CONFIG_SIZE = 9"
definition USB_DT_INTERFACE_SIZE :: nat where "USB_DT_INTERFACE_SIZE = 9"
definition USB_DT_ENDPOINT_SIZE :: nat where "USB_DT_ENDPOINT_SIZE = 7"

definition USB_CLASS_HID :: int where "USB_CLASS_HID = 3"
definition USB_CONFIG_ATT_ONE :: int where "USB_CONFIG_ATT_ONE = 0x80"
definition USB_CONFIG_ATT_SELFPOWER :: int where "USB_CONFIG_ATT_SELFPOWER = 0x40"

definition USB_ENDPOINT_NUMBER_MASK :: int where "USB_ENDPOINT_NUMBER_MASK = 0x0f"
definition USB_ENDPOINT_DIR_MASK :: int where "USB_ENDPOINT_DIR_MASK = 0x80"
definition USB_ENDPOINT_XFERTYPE_MASK :: int where "USB_ENDPOINT_XFERTYPE_MASK = 0x03"
definition USB_ENDPOINT_XFER_CONTROL :: int where "USB_ENDPOINT_XFER_CONTROL = 0"
definition USB_ENDPOINT_XFER_ISOC :: int where "USB_ENDPOINT_XFER_ISOC = 1"
definition USB_ENDPOINT_XFER_BULK :: int where "USB_ENDPOINT_XFER_BULK = 2"
definition USB_ENDPOINT_XFER_INT :: int where "USB_ENDPOINT_XFER_INT = 3"

text \<open>Constants the program defines itself.\<close>

definition USB_RAW_EPS_NUM_MAX :: nat where "USB_RAW_EPS_NUM_MAX = 30"
definition USB_RAW_EP_ADDR_ANY :: int where "USB_RAW_EP_ADDR_ANY = 0xff"
definition USB_RAW_EVENT_INVALID :: int where "USB_RAW_EVENT_INVALID = 0"
definition USB_RAW_EVENT_CONNECT :: int where "USB_RAW_EVENT_CONNECT = 1"
definition USB_RAW_EVENT_CONTROL :: int where "USB_RAW_EVENT_CONTROL = 2"

definition BCD_USB :: int where "BCD_USB = 0x0200"
definition USB_VENDOR :: int where "USB_VENDOR = 0x056a"
definition USB_PRODUCT :: int where "USB_PRODUCT = 0xffab"
definition LANG_EN_US :: int where "LANG_EN_US = 0x0409"
definition STRING_ID_MANUFACTURER :: int where "STRING_ID_MANUFACTURER = 1"
definition STRING_ID_PRODUCT :: int where "STRING_ID_PRODUCT = 2"
definition STRING_ID_SERIAL :: int where "STRING_ID_SERIAL = 3"
definition STRING_ID_CONFIG :: int where "STRING_ID_CONFIG = 0"
definition STRING_ID_INTERFACE :: int where "STRING_ID_INTERFACE = 0"
definition EP_MAX_PACKET_CONTROL :: int where "EP_MAX_PACKET_CONTROL = 64"
definition EP_MAX_PACKET_INT :: int where "EP_MAX_PACKET_INT = 8"
definition EP_NUM_INT_IN :: int where "EP_NUM_INT_IN = 0x0"
definition EP0_MAX_DATA :: nat where "EP0_MAX_DATA = 256"

subsection \<open>Bytes, failures and \<open>memcpy\<close>\<close>

text \<open>
  How the process can end other than by running on: \<open>exit(EXIT_FAILURE)\<close>, a failed
  \<open>assert\<close>, and an access outside the object that a pointer designates (undefined in
  C, made a failure here so that no theorem can be about such a run).
\<close>

datatype fatal = Exit_failure | Assertion_failed | Out_of_bounds

text \<open>A 16-bit value in memory, least significant byte first (the target is little-endian).\<close>

definition le16 :: "u16 \<Rightarrow> u8 list" where
  "le16 w = [ucast w, ucast (drop_bit 8 w)]"

definition of_le16 :: "u8 \<Rightarrow> u8 \<Rightarrow> u16" where
  "of_le16 lo hi = ucast lo OR push_bit 8 (ucast hi)"

text \<open>
  \<open>memcpy(data + off, src, length src)\<close> on a buffer of \<open>length data\<close> bytes.
\<close>

definition memcpy :: "u8 list \<Rightarrow> nat \<Rightarrow> u8 list \<Rightarrow> fatal + u8 list" where
  "memcpy data off src =
     (if off + length src \<le> length data
      then Inr (take off data @ src @ drop (off + length src) data)
      else Inl Out_of_bounds)"

subsection \<open>The descriptor catalog\<close>

text \<open>
  The descriptors that are never written after their initialisation are given as the
  bytes of their packed structs, one field after the other, which is what \<open>memcpy\<close> and
  \<open>sizeof\<close> see.
\<close>

definition usb_device :: "u8 list" where
  "usb_device =
     [word_of_nat USB_DT_DEVICE_SIZE, word_of_int USB_DT_DEVICE]
     @ le16 (word_of_int BCD_USB)
     @ [0, 0, 0, word_of_int EP_MAX_PACKET_CONTROL]
     @ le16 (word_of_int USB_VENDOR)
     @ le16 (word_of_int USB_PRODUCT)
     @ le16 0
     @ [word_of_int STRING_ID_MANUFACTURER, word_of_int STRING_ID_PRODUCT,
        word_of_int STRING_ID_SERIAL, 1]"

definition usb_qualifier :: "u8 list" where
  "usb_qualifier =
     [10, word_of_int USB_DT_DEVICE_QUALIFIER]
     @ le16 (word_of_int BCD_USB)
     @ [0, 0, 0, word_of_int EP_MAX_PACKET_CONTROL, 1, 0]"

record usb_config_descriptor =
  bLength_c :: u8
  bDescriptorType_c :: u8
  wTotalLength :: u16
  bNumInterfaces :: u8
  bConfigurationValue :: u8
  iConfiguration :: u8
  bmAttributes_c :: u8
  bMaxPower :: u8

definition usb_config :: usb_config_descriptor where
  "usb_config =
     \<lparr>bLength_c = word_of_nat USB_DT_CONFIG_SIZE,
      bDescriptorType_c = word_of_int USB_DT_CONFIG,
      wTotalLength = 0,
      bNumInterfaces = 1,
      bConfigurationValue = 1,
      iConfiguration = word_of_int STRING_ID_CONFIG,
      bmAttributes_c = word_of_int USB_CONFIG_ATT_ONE OR word_of_int USB_CONFIG_ATT_SELFPOWER,
      bMaxPower = 0x32\<rparr>"

definition usb_config_bytes :: "usb_config_descriptor \<Rightarrow> u8 list" where
  "usb_config_bytes c =
     [bLength_c c, bDescriptorType_c c] @ le16 (wTotalLength c)
     @ [bNumInterfaces c, bConfigurationValue c, iConfiguration c, bmAttributes_c c,
        bMaxPower c]"

definition usb_interface :: "u8 list" where
  "usb_interface =
     [word_of_nat USB_DT_INTERFACE_SIZE, word_of_int USB_DT_INTERFACE, 0, 0, 1,
      word_of_int USB_CLASS_HID, 1, 1, word_of_int STRING_ID_INTERFACE]"

text \<open>
  \<open>struct usb_endpoint_descriptor\<close> has nine bytes, the last two being the audio
  fields; \<open>build_config\<close> copies the first \<open>USB_DT_ENDPOINT_SIZE\<close> of them. The
  global \<open>usb_endpoint\<close> is the one descriptor the program writes to.
\<close>

record usb_endpoint_descriptor =
  bLength :: u8
  bDescriptorType :: u8
  bEndpointAddress :: u8
  bmAttributes :: u8
  wMaxPacketSize :: u16
  bInterval :: u8
  bRefresh :: u8
  bSynchAddress :: u8

definition usb_endpoint_init :: usb_endpoint_descriptor where
  "usb_endpoint_init =
     \<lparr>bLength = word_of_nat USB_DT_ENDPOINT_SIZE,
      bDescriptorType = word_of_int USB_DT_ENDPOINT,
      bEndpointAddress = word_of_int USB_DIR_IN OR word_of_int EP_NUM_INT_IN,
      bmAttributes = word_of_int USB_ENDPOINT_XFER_INT,
      wMaxPacketSize = word_of_int EP_MAX_PACKET_INT,
      bInterval = 5,
      bRefresh = 0,
      bSynchAddress = 0\<rparr>"

definition usb_endpoint_bytes :: "usb_endpoint_descriptor \<Rightarrow> u8 list" where
  "usb_endpoint_bytes e =
     [bLength e, bDescriptorType e, bEndpointAddress e, bmAttributes e]
     @ le16 (wMaxPacketSize e) @ [bInterval e, bRefresh e, bSynchAddress e]"

definition usb_hid_report :: "u8 list" where
  "usb_hid_report =
     [0x05, 0x0D, 0x09, 0x02, 0xA1, 0x01, 0x85, 0x06, 0x09, 0x20, 0xA0, 0x09, 0x42,
      0x09, 0x44, 0x09, 0x45, 0x09, 0x3C, 0x08, 0x09, 0x32, 0x14, 0x25, 0x01, 0x75,
      0x01, 0x95, 0x06, 0x81, 0x02, 0x95, 0x02, 0x81, 0x03, 0x05, 0x01, 0x09, 0x30,
      0x26, 0x80, 0x3E, 0x46, 0x80, 0x3E, 0x65, 0x11, 0x55, 0x0D, 0x75, 0x10, 0x95,
      0x01, 0x81, 0x02, 0x09, 0x31, 0x26, 0x28, 0x23, 0x46, 0x28, 0x23, 0x81, 0x02,
      0x44, 0x64, 0x54, 0x05, 0x0D, 0x09, 0x30, 0x26, 0xFF, 0x03, 0x75, 0x10, 0x81,
      0x02, 0xC0, 0xC0]"

definition usb_hid :: "u8 list" where
  "usb_hid =
     [9, word_of_int HID_DT_HID] @ le16 0x0110 @ [0, 1, word_of_int HID_DT_REPORT]
     @ le16 (word_of_nat (length usb_hid_report))"

text \<open>
  \<open>build_config(data, length)\<close>. \<open>length\<close> is an \<open>int\<close>. The first three \<open>assert\<close>s
  compare it with a \<open>sizeof\<close>, so it is converted to the 64-bit \<open>size_t\<close> first
  (\<open>scast\<close>, which makes a negative \<open>length\<close> a huge size), and \<open>length -= sizeof ...\<close>
  stores the difference in the \<open>int\<close> again. The fourth compares it with the macro
  \<open>USB_DT_ENDPOINT_SIZE\<close>, an \<open>int\<close> constant, so that comparison is signed (\<open>sint\<close>).
  \<open>data\<close> is the caller's buffer from the pointer on; the function returns the buffer
  and \<open>total_length\<close>.
\<close>

definition build_config ::
  "usb_endpoint_descriptor \<Rightarrow> u8 list \<Rightarrow> u32 \<Rightarrow> fatal + (u8 list \<times> u32)" where
  "build_config usb_endpoint data len =
     (let total_length = (0 :: u32);
          sz = length (usb_config_bytes usb_config)
      in if \<not> (scast len :: u64) \<ge> word_of_nat sz then Inl Assertion_failed
      else case memcpy data 0 (usb_config_bytes usb_config) of Inl f \<Rightarrow> Inl f | Inr data \<Rightarrow>
      let off = sz; len = len - word_of_nat sz;
          total_length = total_length + word_of_nat sz;
          sz = length usb_interface
      in if \<not> (scast len :: u64) \<ge> word_of_nat sz then Inl Assertion_failed
      else case memcpy data off usb_interface of Inl f \<Rightarrow> Inl f | Inr data \<Rightarrow>
      let off = off + sz; len = len - word_of_nat sz;
          total_length = total_length + word_of_nat sz;
          sz = length usb_hid
      in if \<not> (scast len :: u64) \<ge> word_of_nat sz then Inl Assertion_failed
      else case memcpy data off usb_hid of Inl f \<Rightarrow> Inl f | Inr data \<Rightarrow>
      let off = off + sz; len = len - word_of_nat sz;
          total_length = total_length + word_of_nat sz;
          sz = USB_DT_ENDPOINT_SIZE
      in if \<not> sint len \<ge> int sz then Inl Assertion_failed
      else case memcpy data off (take sz (usb_endpoint_bytes usb_endpoint)) of
             Inl f \<Rightarrow> Inl f | Inr data \<Rightarrow>
      let total_length = total_length + word_of_nat sz
      in case memcpy data 2 (le16 (ucast total_length)) of Inl f \<Rightarrow> Inl f | Inr data \<Rightarrow>
      Inr (data, total_length))"

subsection \<open>Strings\<close>

text \<open>
  The string table. A \<open>char16_t\<close> array initialised from a literal ends with a
  terminating zero unit, which \<open>sizeof\<close> counts; \<open>units_bytes\<close> gives the array as it
  lies in memory.
\<close>

definition units_bytes :: "u16 list \<Rightarrow> u8 list" where
  "units_bytes us = concat (map le16 us)"

definition char16_literal :: "string \<Rightarrow> u16 list" where
  "char16_literal s = map (\<lambda>c. word_of_nat (of_char c)) s @ [0]"

definition languages :: "u16 list" where
  "languages = [word_of_int LANG_EN_US]"

definition manufacturer_en_us :: "u16 list" where
  "manufacturer_en_us = char16_literal ''Wacom Co., Ltd.''"

definition product_en_us :: "u16 list" where
  "product_en_us = char16_literal ''Software Tablet''"

definition serial_en_us :: "u16 list" where
  "serial_en_us = char16_literal ''19830712''"

subsection \<open>Requests, transfers, globals and the outside world\<close>

record usb_ctrlrequest =
  bRequestType :: u8
  bRequest :: u8
  wValue :: u16
  wIndex :: u16
  wLength :: u16

text \<open>
  \<open>struct usb_raw_control_io\<close>: the fields of \<open>inner\<close>, then the \<open>EP0_MAX_DATA\<close> bytes
  of \<open>data\<close>.
\<close>

record usb_raw_control_io =
  inner_ep :: u16
  inner_flags :: u16
  inner_length :: u32
  data :: "u8 list"

record usb_raw_ep_caps =
  type_control :: bool
  type_iso :: bool
  type_bulk :: bool
  type_int :: bool
  dir_in :: bool
  dir_out :: bool

text \<open>
  \<open>struct usb_raw_ep_info\<close> without \<open>name\<close> and \<open>limits\<close>, which the program only
  prints.
\<close>

record usb_raw_ep_info =
  addr :: u32
  caps :: usb_raw_ep_caps

text \<open>
  The globals that the program writes: the endpoint descriptor, the \<open>static int addr\<close>
  of \<open>assign_ep_address\<close>, \<open>ep_int_in\<close> and the thread handle \<open>ep_int_in_thread\<close>
  (\<open>pthread_t\<close>, an \<open>unsigned long\<close>).
\<close>

record globals =
  usb_endpoint :: usb_endpoint_descriptor
  static_addr :: u32
  ep_int_in :: int
  ep_int_in_thread :: u64

definition initial_globals :: globals where
  "initial_globals =
     \<lparr>usb_endpoint = usb_endpoint_init, static_addr = 1, ep_int_in = -1,
      ep_int_in_thread = 0\<rparr>"

text \<open>
  What the kernel and the thread library are asked to do, in the order of the calls.
  \<open>EP0_WRITE\<close> and \<open>EP0_READ\<close> carry \<open>io.inner.length\<close>; \<open>EP0_WRITE\<close> carries the bytes
  of \<open>io.data\<close> that this length covers as well. \<open>PTHREAD_CREATE\<close> says whether a thread
  running \<open>ep_int_in_loop\<close> came into being.
\<close>

datatype action =
    EVENT_FETCH
  | EPS_INFO
  | EP_ENABLE usb_endpoint_descriptor
  | VBUS_DRAW u32
  | CONFIGURE
  | EP0_STALL
  | EP0_WRITE u32 "u8 list"
  | EP0_READ u32
  | PTHREAD_CREATE bool

text \<open>
  What the outside world answers during one iteration of \<open>ep0_loop\<close>: the return value
  of each \<open>ioctl\<close>, the event and the capability table the kernel writes, the bytes found
  in the uninitialised \<open>io.data\<close>, and for \<open>pthread_create\<close> (whose return value the
  program ignores) whether the thread was created and the value left in the handle.
\<close>

record env =
  event_fetch_rv :: int
  event_type :: u32
  event_ctrl :: usb_ctrlrequest
  eps_info_rv :: int
  eps_info_table :: "usb_raw_ep_info list"
  ep_enable_rv :: int
  vbus_draw_rv :: int
  configure_rv :: int
  ep0_stall_rv :: int
  ep0_write_rv :: int
  ep0_read_rv :: int
  stack_data :: "u8 list"
  pthread_create_ok :: bool
  pthread_create_handle :: u64

text \<open>A computation: the trace of its actions, and a failure or its result.\<close>

type_synonym 'a io_result = "action list \<times> (fatal + 'a)"

definition bind_io :: "'a io_result \<Rightarrow> ('a \<Rightarrow> 'b io_result) \<Rightarrow> 'b io_result" where
  "bind_io m f =
     (case m of
        (t, Inl e) \<Rightarrow> (t, Inl e)
      | (t, Inr v) \<Rightarrow> (case f v of (t', r) \<Rightarrow> (t @ t', r)))"

definition pure_io :: "fatal + 'a \<Rightarrow> 'a io_result" where
  "pure_io r = ([], r)"

text \<open>
  The wrappers of the \<open>ioctl\<close>s: each records its call, and exits when the return value
  is negative.
\<close>

definition ioctl :: "action \<Rightarrow> int \<Rightarrow> int io_result" where
  "ioctl a rv = ([a], if rv < 0 then Inl Exit_failure else Inr rv)"

definition usb_raw_event_fetch :: "env \<Rightarrow> int io_result" where
  "usb_raw_event_fetch env = ioctl EVENT_FETCH (event_fetch_rv env)"

definition usb_raw_eps_info :: "env \<Rightarrow> int io_result" where
  "usb_raw_eps_info env = ioctl EPS_INFO (eps_info_rv env)"

definition usb_raw_ep_enable :: "env \<Rightarrow> usb_endpoint_descriptor \<Rightarrow> int io_result" where
  "usb_raw_ep_enable env desc = ioctl (EP_ENABLE desc) (ep_enable_rv env)"

definition usb_raw_vbus_draw :: "env \<Rightarrow> u32 \<Rightarrow> int io_result" where
  "usb_raw_vbus_draw env pwr = ioctl (VBUS_DRAW pwr) (vbus_draw_rv env)"

definition usb_raw_configure :: "env \<Rightarrow> int io_result" where
  "usb_raw_configure env = ioctl CONFIGURE (configure_rv env)"

definition usb_raw_ep0_stall :: "env \<Rightarrow> int io_result" where
  "usb_raw_ep0_stall env = ioctl EP0_STALL (ep0_stall_rv env)"

definition usb_raw_ep0_write :: "env \<Rightarrow> usb_raw_control_io \<Rightarrow> int io_result" where
  "usb_raw_ep0_write env io =
     ioctl (EP0_WRITE (inner_length io) (take (unat (inner_length io)) (data io)))
       (ep0_write_rv env)"

definition usb_raw_ep0_read :: "env \<Rightarrow> usb_raw_control_io \<Rightarrow> int io_result" where
  "usb_raw_ep0_read env io = ioctl (EP0_READ (inner_length io)) (ep0_read_rv env)"

subsection \<open>The endpoint negotiator\<close>

text \<open>The helpers of \<open><linux/usb/ch9.h>\<close>.\<close>

definition usb_endpoint_num :: "usb_endpoint_descriptor \<Rightarrow> int" where
  "usb_endpoint_num epd = uint (bEndpointAddress epd) AND USB_ENDPOINT_NUMBER_MASK"

definition usb_endpoint_type :: "usb_endpoint_descriptor \<Rightarrow> int" where
  "usb_endpoint_type epd = uint (bmAttributes epd) AND USB_ENDPOINT_XFERTYPE_MASK"

definition usb_endpoint_dir_in :: "usb_endpoint_descriptor \<Rightarrow> bool" where
  "usb_endpoint_dir_in epd =
     (uint (bEndpointAddress epd) AND USB_ENDPOINT_DIR_MASK = USB_DIR_IN)"

definition usb_endpoint_dir_out :: "usb_endpoint_descriptor \<Rightarrow> bool" where
  "usb_endpoint_dir_out epd =
     (uint (bEndpointAddress epd) AND USB_ENDPOINT_DIR_MASK = USB_DIR_OUT)"

text \<open>
  \<open>assign_ep_address(info, ep)\<close>, with the static counter \<open>addr\<close> passed in and out. The
  result of \<open>ep->bEndpointAddress |= ...\<close> is stored in a byte, so the right-hand side
  counts modulo 256 (\<open>ucast\<close>). \<open>addr++\<close> is written as the addition of \<open>u32\<close>.
\<close>

definition assign_ep_address ::
  "usb_raw_ep_info \<Rightarrow> usb_endpoint_descriptor \<Rightarrow> u32
     \<Rightarrow> fatal + (bool \<times> usb_endpoint_descriptor \<times> u32)" where
  "assign_ep_address info epd counter =
     (if usb_endpoint_num epd \<noteq> 0 then Inr (False, epd, counter)
      else if usb_endpoint_dir_in epd \<and> \<not> dir_in (caps info) then Inr (False, epd, counter)
      else if usb_endpoint_dir_out epd \<and> \<not> dir_out (caps info) then Inr (False, epd, counter)
      else if usb_endpoint_type epd = USB_ENDPOINT_XFER_BULK \<and> \<not> type_bulk (caps info)
        then Inr (False, epd, counter)
      else if usb_endpoint_type epd = USB_ENDPOINT_XFER_INT \<and> \<not> type_int (caps info)
        then Inr (False, epd, counter)
      else if usb_endpoint_type epd \<noteq> USB_ENDPOINT_XFER_BULK
            \<and> usb_endpoint_type epd \<noteq> USB_ENDPOINT_XFER_INT
        then Inl Assertion_failed
      else if uint (addr info) = USB_RAW_EP_ADDR_ANY
        then Inr (True, epd\<lparr>bEndpointAddress := bEndpointAddress epd OR ucast counter\<rparr>,
                  counter + 1)
      else Inr (True, epd\<lparr>bEndpointAddress := bEndpointAddress epd OR ucast (addr info)\<rparr>,
                counter))"

text \<open>
  The second loop of \<open>process_eps_info\<close>: \<open>assign_ep_address\<close> on each entry in turn,
  whatever it returns.
\<close>

fun assign_loop ::
  "usb_raw_ep_info list \<Rightarrow> usb_endpoint_descriptor \<Rightarrow> u32
     \<Rightarrow> fatal + (usb_endpoint_descriptor \<times> u32)" where
  "assign_loop [] epd counter = Inr (epd, counter)"
| "assign_loop (info # infos) epd counter =
     (case assign_ep_address info epd counter of
        Inl f \<Rightarrow> Inl f
      | Inr (_, epd, counter) \<Rightarrow> assign_loop infos epd counter)"

definition zero_ep_info :: usb_raw_ep_info where
  "zero_ep_info =
     \<lparr>addr = 0,
      caps = \<lparr>type_control = False, type_iso = False, type_bulk = False, type_int = False,
              dir_in = False, dir_out = False\<rparr>\<rparr>"

text \<open>
  \<open>process_eps_info\<close>. The table has \<open>USB_RAW_EPS_NUM_MAX\<close> entries, zeroed before the
  kernel fills it; the loops read the first \<open>num\<close> of them, so a \<open>num\<close> beyond the table
  is an access outside it, in the loop that prints.
\<close>

definition process_eps_info :: "env \<Rightarrow> globals \<Rightarrow> globals io_result" where
  "process_eps_info env g =
     bind_io (usb_raw_eps_info env) (\<lambda>num.
       let info = take USB_RAW_EPS_NUM_MAX
                    (eps_info_table env @ replicate USB_RAW_EPS_NUM_MAX zero_ep_info)
       in if num > int USB_RAW_EPS_NUM_MAX then pure_io (Inl Out_of_bounds)
          else case assign_loop (take (nat num) info) (usb_endpoint g) (static_addr g) of
                 Inl f \<Rightarrow> pure_io (Inl f)
               | Inr (epd, counter) \<Rightarrow>
                   if \<not> usb_endpoint_num epd \<noteq> 0 then pure_io (Inl Assertion_failed)
                   else pure_io (Inr (g\<lparr>usb_endpoint := epd, static_addr := counter\<rparr>)))"

text \<open>
  A run of calls of \<open>assign_ep_address\<close>, each on a capability entry and an endpoint
  descriptor of its own, sharing the static counter. The run keeps, for each call, the
  entry, the descriptor before the call, the value returned and the descriptor after it.
\<close>

type_synonym assignment =
  "usb_raw_ep_info \<times> usb_endpoint_descriptor \<times> bool \<times> usb_endpoint_descriptor"

fun assign_run ::
  "(usb_raw_ep_info \<times> usb_endpoint_descriptor) list \<Rightarrow> u32
     \<Rightarrow> fatal + (assignment list \<times> u32)" where
  "assign_run [] counter = Inr ([], counter)"
| "assign_run ((info, epd) # calls) counter =
     (case assign_ep_address info epd counter of
        Inl f \<Rightarrow> Inl f
      | Inr (ok, epd', counter') \<Rightarrow>
          (case assign_run calls counter' of
             Inl f \<Rightarrow> Inl f
           | Inr (done_calls, counter'') \<Rightarrow>
               Inr ((info, epd, ok, epd') # done_calls, counter'')))"

text \<open>The calls of a run that returned \<open>true\<close> on an entry with the any-address mark.\<close>

definition any_address_assignments :: "assignment list \<Rightarrow> assignment list" where
  "any_address_assignments log =
     filter (\<lambda>(info, epd, ok, epd'). ok \<and> uint (addr info) = USB_RAW_EP_ADDR_ANY) log"

definition fixed_address_assignments :: "assignment list \<Rightarrow> assignment list" where
  "fixed_address_assignments log =
     filter (\<lambda>(info, epd, ok, epd'). ok \<and> uint (addr info) \<noteq> USB_RAW_EP_ADDR_ANY) log"

subsection \<open>The control transfer dispatcher\<close>

text \<open>
  \<open>fill_string_descriptor(id, lang, io)\<close>. The inner value is the array that \<open>data\<close> and
  \<open>len\<close> designate, or \<open>None\<close> at \<open>return false\<close>. \<open>io->data\<close> is an array of \<open>char\<close>,
  read back as a signed byte (\<open>scast\<close>) for \<open>io->inner.length\<close>.
\<close>

definition fill_string_descriptor ::
  "u8 \<Rightarrow> u16 \<Rightarrow> usb_raw_control_io \<Rightarrow> fatal + (bool \<times> usb_raw_control_io)" where
  "fill_string_descriptor sid lang io =
     (case
        (if sid = 0 \<and> lang = 0 then Inr (Some (units_bytes languages))
         else if \<not> uint sid > 0 then Inl Assertion_failed
         else if \<not> uint lang = LANG_EN_US then Inl Assertion_failed
         else if uint sid = STRING_ID_MANUFACTURER then Inr (Some (units_bytes manufacturer_en_us))
         else if uint sid = STRING_ID_PRODUCT then Inr (Some (units_bytes product_en_us))
         else if uint sid = STRING_ID_SERIAL then Inr (Some (units_bytes serial_en_us))
         else Inr None)
      of Inl f \<Rightarrow> Inl f
       | Inr None \<Rightarrow> Inr (False, io)
       | Inr (Some payload) \<Rightarrow>
           (let len = length payload;
                d = (data io)[0 := word_of_nat (len + 2)];
                d = d[1 := word_of_int USB_DT_STRING]
            in case memcpy d 2 payload of
                 Inl f \<Rightarrow> Inl f
               | Inr d \<Rightarrow> Inr (True, io\<lparr>data := d, inner_length := scast (d ! 0)\<rparr>)))"

text \<open>
  \<open>ep0_request(fd, event, io)\<close>, on the request \<open>event->ctrl\<close>. The value \<open>true\<close> means
  that a transfer follows, \<open>false\<close> that the caller stalls.
\<close>

definition ep0_request ::
  "env \<Rightarrow> globals \<Rightarrow> usb_ctrlrequest \<Rightarrow> usb_raw_control_io
     \<Rightarrow> (bool \<times> usb_raw_control_io \<times> globals) io_result" where
  "ep0_request env g ctrl io =
     (let ty = uint (bRequestType ctrl) AND USB_TYPE_MASK;
          req = uint (bRequest ctrl)
      in
      if ty = USB_TYPE_STANDARD then
        (if req = USB_REQ_GET_DESCRIPTOR then
           (let dt = drop_bit 8 (uint (wValue ctrl))
            in
            if dt = USB_DT_DEVICE then
              pure_io (case memcpy (data io) 0 usb_device of
                 Inl f \<Rightarrow> Inl f
               | Inr d \<Rightarrow>
                   Inr (True, io\<lparr>data := d, inner_length := word_of_nat (length usb_device)\<rparr>, g))
            else if dt = USB_DT_DEVICE_QUALIFIER then
              pure_io (case memcpy (data io) 0 usb_qualifier of
                 Inl f \<Rightarrow> Inl f
               | Inr d \<Rightarrow>
                   Inr (True,
                        io\<lparr>data := d, inner_length := word_of_nat (length usb_qualifier)\<rparr>, g))
            else if dt = USB_DT_CONFIG then
              pure_io (case build_config (usb_endpoint g) (data io) (word_of_nat EP0_MAX_DATA) of
                 Inl f \<Rightarrow> Inl f
               | Inr (d, total_length) \<Rightarrow>
                   Inr (True, io\<lparr>data := d, inner_length := total_length\<rparr>, g))
            else if dt = USB_DT_STRING then
              pure_io (case fill_string_descriptor (word_of_int (uint (wValue ctrl) AND 0xff))
                              (wIndex ctrl) io of
                 Inl f \<Rightarrow> Inl f
               | Inr (reply, io) \<Rightarrow> Inr (reply, io, g))
            else if dt = HID_DT_REPORT then
              pure_io (case memcpy (data io) 0 usb_hid_report of
                 Inl f \<Rightarrow> Inl f
               | Inr d \<Rightarrow>
                   Inr (True,
                        io\<lparr>data := d, inner_length := word_of_nat (length usb_hid_report)\<rparr>, g))
            else pure_io (Inl Exit_failure))
         else if req = USB_REQ_SET_CONFIGURATION then
           bind_io (usb_raw_ep_enable env (usb_endpoint g)) (\<lambda>rv.
           bind_io (usb_raw_vbus_draw env (ucast (bMaxPower usb_config))) (\<lambda>_.
           bind_io (usb_raw_configure env) (\<lambda>_.
           pure_io (Inr (True, io\<lparr>inner_length := 0\<rparr>, g\<lparr>ep_int_in := rv\<rparr>)))))
         else if req = USB_REQ_GET_INTERFACE then
           pure_io (Inr (True, io\<lparr>data := (data io)[0 := usb_interface ! 3],
                                 inner_length := 1\<rparr>, g))
         else pure_io (Inl Exit_failure))
      else if ty = USB_TYPE_CLASS then
        (if req = HID_REQ_SET_REPORT then
           pure_io (Inr (True, io\<lparr>inner_length := 1\<rparr>, g))
         else if req = HID_REQ_SET_IDLE then
           (if ep_int_in_thread g = 0 then
              ([PTHREAD_CREATE (pthread_create_ok env)],
               Inr (True, io\<lparr>inner_length := 0\<rparr>,
                    g\<lparr>ep_int_in_thread := pthread_create_handle env\<rparr>))
            else pure_io (Inr (True, io\<lparr>inner_length := 0\<rparr>, g)))
         else if req = HID_REQ_SET_PROTOCOL then
           pure_io (Inr (True, io\<lparr>inner_length := 0\<rparr>, g))
         else pure_io (Inl Exit_failure))
      else if ty = USB_TYPE_VENDOR then pure_io (Inl Exit_failure)
      else pure_io (Inl Exit_failure))"

subsection \<open>The event loop\<close>

text \<open>
  The \<open>struct usb_raw_control_io io\<close> of an iteration after its three assignments:
  \<open>data\<close> is not initialised, so its \<open>EP0_MAX_DATA\<close> bytes are whatever the stack
  holds.
\<close>

definition stack_io :: "env \<Rightarrow> usb_raw_control_io" where
  "stack_io env =
     \<lparr>inner_ep = 0, inner_flags = 0, inner_length = 0,
      data = take EP0_MAX_DATA (stack_data env @ replicate EP0_MAX_DATA 0)\<rparr>"

text \<open>
  One iteration of the \<open>while (!done)\<close> loop of \<open>ep0_loop\<close>. \<open>done\<close> is never set, so
  an iteration either ends the process or hands the globals to the next one.
  \<open>event.ctrl.wLength < io.inner.length\<close> compares a promoted \<open>__le16\<close> with a \<open>__u32\<close>,
  that is as \<open>unsigned int\<close>.
\<close>

definition ep0_loop_body :: "env \<Rightarrow> globals \<Rightarrow> globals io_result" where
  "ep0_loop_body env g =
     bind_io (usb_raw_event_fetch env) (\<lambda>_.
     bind_io (if uint (event_type env) = USB_RAW_EVENT_CONNECT then process_eps_info env g
              else pure_io (Inr g)) (\<lambda>g.
     if uint (event_type env) \<noteq> USB_RAW_EVENT_CONTROL then pure_io (Inr g)
     else
       let ctrl = event_ctrl env;
           io = stack_io env
       in bind_io (ep0_request env g ctrl io) (\<lambda>(reply, io, g).
          if \<not> reply then bind_io (usb_raw_ep0_stall env) (\<lambda>_. pure_io (Inr g))
          else
            let io = (if (ucast (wLength ctrl) :: u32) < inner_length io
                      then io\<lparr>inner_length := ucast (wLength ctrl)\<rparr> else io)
            in if uint (bRequestType ctrl) AND USB_DIR_IN \<noteq> 0
               then bind_io (usb_raw_ep0_write env io) (\<lambda>_. pure_io (Inr g))
               else bind_io (usb_raw_ep0_read env io) (\<lambda>_. pure_io (Inr g)))))"

text \<open>
  The loop on the events of a run, one \<open>env\<close> for each iteration: the loop itself never
  ends, so its behaviour is given on every finite prefix of what arrives.
\<close>

fun ep0_loop :: "env list \<Rightarrow> globals \<Rightarrow> globals io_result" where
  "ep0_loop [] g = pure_io (Inr g)"
| "ep0_loop (env # envs) g = bind_io (ep0_loop_body env g) (ep0_loop envs)"

subsection \<open>Predicates used in the proofs\<close>

text \<open>
  The states of the motion that lie on the rectangular path: on each side the report
  is on that side's line, at a multiple of the step, and has not reached the corner where
  the side ends.
\<close>

fun motion_inv :: "pen_report \<times> motion_direction \<Rightarrow> bool" where
  "motion_inv (r, MOTION_RIGHT) =
     (uint (y r) = 2000 \<and> 2000 \<le> uint (x r) \<and> uint (x r) < 14000 \<and> uint (x r) mod 100 = 0)"
| "motion_inv (r, MOTION_DOWN) =
     (uint (x r) = 14000 \<and> 2000 \<le> uint (y r) \<and> uint (y r) < 7000 \<and> uint (y r) mod 100 = 0)"
| "motion_inv (r, MOTION_LEFT) =
     (uint (y r) = 7000 \<and> 2000 < uint (x r) \<and> uint (x r) \<le> 14000 \<and> uint (x r) mod 100 = 0)"
| "motion_inv (r, MOTION_UP) =
     (uint (x r) = 2000 \<and> 2000 < uint (y r) \<and> uint (y r) \<le> 7000 \<and> uint (y r) mod 100 = 0)"

text \<open>
  The byte sum of the four descriptors that \<open>build_config\<close> concatenates.
\<close>

definition catalog_total :: nat where
  "catalog_total = length (usb_config_bytes usb_config) + length usb_interface
     + length usb_hid + USB_DT_ENDPOINT_SIZE"

text \<open>
  A connect event that the kernel delivers and whose capability table it delivers too.
\<close>

definition connect_event :: "env \<Rightarrow> bool" where
  "connect_event env \<longleftrightarrow>
     0 \<le> event_fetch_rv env \<and> uint (event_type env) = USB_RAW_EVENT_CONNECT
     \<and> 0 \<le> eps_info_rv env \<and> eps_info_rv env \<le> int USB_RAW_EPS_NUM_MAX"

subsection \<open>Vocabulary of the statements about requests\<close>

text \<open>
  The three values that \<open>ep0_request\<close> switches on, and the string id it passes on.
\<close>

definition request_class :: "usb_ctrlrequest \<Rightarrow> int" where
  "request_class c = uint (bRequestType c) AND USB_TYPE_MASK"

definition request_code :: "usb_ctrlrequest \<Rightarrow> int" where
  "request_code c = uint (bRequest c)"

definition descriptor_type :: "usb_ctrlrequest \<Rightarrow> int" where
  "descriptor_type c = drop_bit 8 (uint (wValue c))"

definition string_id :: "usb_ctrlrequest \<Rightarrow> u8" where
  "string_id c = word_of_int (uint (wValue c) AND 0xff)"

definition get_descriptor :: "usb_ctrlrequest \<Rightarrow> bool" where
  "get_descriptor c \<longleftrightarrow>
     request_class c = USB_TYPE_STANDARD \<and> request_code c = USB_REQ_GET_DESCRIPTOR"

definition string_request :: "usb_ctrlrequest \<Rightarrow> bool" where
  "string_request c \<longleftrightarrow> get_descriptor c \<and> descriptor_type c = USB_DT_STRING"

definition set_configuration :: "usb_ctrlrequest \<Rightarrow> bool" where
  "set_configuration c \<longleftrightarrow>
     request_class c = USB_TYPE_STANDARD \<and> request_code c = USB_REQ_SET_CONFIGURATION"

definition set_idle :: "usb_ctrlrequest \<Rightarrow> bool" where
  "set_idle c \<longleftrightarrow> request_class c = USB_TYPE_CLASS \<and> request_code c = HID_REQ_SET_IDLE"

text \<open>
  The string requests that \<open>fill_string_descriptor\<close> answers with \<open>false\<close>: language
  \<open>LANG_EN_US\<close> and an id that is neither 0 nor one of the three ids of the switch.
\<close>

definition unknown_string :: "u8 \<Rightarrow> u16 \<Rightarrow> bool" where
  "unknown_string sid lang \<longleftrightarrow>
     uint lang = LANG_EN_US \<and> sid \<noteq> 0 \<and> uint sid \<noteq> STRING_ID_MANUFACTURER
     \<and> uint sid \<noteq> STRING_ID_PRODUCT \<and> uint sid \<noteq> STRING_ID_SERIAL"

definition stall_shape :: "usb_ctrlrequest \<Rightarrow> bool" where
  "stall_shape c \<longleftrightarrow> string_request c \<and> unknown_string (string_id c) (wIndex c)"

text \<open>
  The array, as bytes, that the two branches and the switch of \<open>fill_string_descriptor\<close>
  select for a string id and a language.
\<close>

definition string_array :: "u8 \<Rightarrow> u16 \<Rightarrow> u8 list option" where
  "string_array sid lang =
     (if sid = 0 \<and> lang = 0 then Some (units_bytes languages)
      else if uint lang = LANG_EN_US \<and> uint sid = STRING_ID_MANUFACTURER
        then Some (units_bytes manufacturer_en_us)
      else if uint lang = LANG_EN_US \<and> uint sid = STRING_ID_PRODUCT
        then Some (units_bytes product_en_us)
      else if uint lang = LANG_EN_US \<and> uint sid = STRING_ID_SERIAL
        then Some (units_bytes serial_en_us)
      else None)"

text \<open>
  The string that a \<open>char16_t\<close> array holds: its units before the terminating zero unit.
\<close>

definition string_of :: "u16 list \<Rightarrow> u16 list" where
  "string_of arr = takeWhile (\<lambda>u. u \<noteq> 0) arr"

text \<open>
  The string table: the UTF-16 payload that belongs to a string id and a language. For
  id 0 and language 0 it is the list of language ids, for the ids 1, 2 and 3 in language
  \<open>LANG_EN_US\<close> the string of the matching array.
\<close>

definition string_table :: "u8 \<Rightarrow> u16 \<Rightarrow> u8 list option" where
  "string_table sid lang =
     (if sid = 0 \<and> lang = 0 then Some (units_bytes languages)
      else if uint lang = LANG_EN_US \<and> uint sid = STRING_ID_MANUFACTURER
        then Some (units_bytes (string_of manufacturer_en_us))
      else if uint lang = LANG_EN_US \<and> uint sid = STRING_ID_PRODUCT
        then Some (units_bytes (string_of product_en_us))
      else if uint lang = LANG_EN_US \<and> uint sid = STRING_ID_SERIAL
        then Some (units_bytes (string_of serial_en_us))
      else None)"

text \<open>The number of threads that a trace says were created.\<close>

definition threads_created :: "action list \<Rightarrow> nat" where
  "threads_created t = length (filter (\<lambda>a. a = PTHREAD_CREATE True) t)"

text \<open>The number of times a trace asks the kernel to enable an endpoint.\<close>

fun is_ep_enable :: "action \<Rightarrow> bool" where
  "is_ep_enable (EP_ENABLE d) = True"
| "is_ep_enable a = False"

definition enables :: "action list \<Rightarrow> nat" where
  "enables t = length (filter is_ep_enable t)"

subsection \<open>Concrete inputs\<close>

text \<open>
  The inputs at which the theorems below are instantiated: capability entries of an
  interrupt-capable IN endpoint with and without a fixed address, and an environment
  in which every call succeeds, with a connect event and a control event built on it.
\<close>

definition any_int_in :: usb_raw_ep_info where
  "any_int_in =
     \<lparr>addr = 0xff,
      caps = \<lparr>type_control = False, type_iso = False, type_bulk = True, type_int = True,
              dir_in = True, dir_out = True\<rparr>\<rparr>"

definition fixed_int_in :: "u32 \<Rightarrow> usb_raw_ep_info" where
  "fixed_int_in a = any_int_in\<lparr>addr := a\<rparr>"

definition example_calls :: "(usb_raw_ep_info \<times> usb_endpoint_descriptor) list" where
  "example_calls =
     [(any_int_in, usb_endpoint_init), (any_int_in, usb_endpoint_init),
      (fixed_int_in 3, usb_endpoint_init)]"

text \<open>Sixteen calls in a row on an any-address entry, each on a fresh descriptor.\<close>

definition sixteen_calls :: "(usb_raw_ep_info \<times> usb_endpoint_descriptor) list" where
  "sixteen_calls = replicate 16 (any_int_in, usb_endpoint_init)"

text \<open>
  What those sixteen calls do when the counter starts at 1: the \<open>n\<close>-th puts \<open>n\<close> into
  the address byte \<open>0x80\<close> of its descriptor.
\<close>

definition sixteen_assignments :: "assignment list" where
  "sixteen_assignments =
     map (\<lambda>n. (any_int_in, usb_endpoint_init, True,
               usb_endpoint_init\<lparr>bEndpointAddress := 0x80 OR word_of_nat n\<rparr>))
       [1..<17]"

definition quiet_env :: env where
  "quiet_env =
     \<lparr>event_fetch_rv = 0, event_type = 0,
      event_ctrl = \<lparr>bRequestType = 0, bRequest = 0, wValue = 0, wIndex = 0, wLength = 0\<rparr>,
      eps_info_rv = 0, eps_info_table = [], ep_enable_rv = 0, vbus_draw_rv = 0,
      configure_rv = 0, ep0_stall_rv = 0, ep0_write_rv = 0, ep0_read_rv = 0,
      stack_data = [], pthread_create_ok = True, pthread_create_handle = 0x7f0000001000\<rparr>"

definition connect_with :: "usb_raw_ep_info list \<Rightarrow> env" where
  "connect_with table =
     quiet_env\<lparr>event_type := 1, eps_info_rv := int (length table), eps_info_table := table\<rparr>"

definition control_with :: "u8 \<Rightarrow> u8 \<Rightarrow> u16 \<Rightarrow> u16 \<Rightarrow> u16 \<Rightarrow> env" where
  "control_with rt rq v i l =
     quiet_env\<lparr>event_type := 2,
               event_ctrl := \<lparr>bRequestType = rt, bRequest = rq, wValue = v, wIndex = i,
                               wLength = l\<rparr>\<rparr>"

definition assigned_globals :: globals where
  "assigned_globals =
     initial_globals\<lparr>usb_endpoint := usb_endpoint_init\<lparr>bEndpointAddress := 0x81\<rparr>,
                     static_addr := 2\<rparr>"

text \<open>An \<open>io\<close> with a zeroed buffer.\<close>

definition zero_io :: usb_raw_control_io where
  "zero_io =
     \<lparr>inner_ep = 0, inner_flags = 0, inner_length = 0, data = replicate EP0_MAX_DATA 0\<rparr>"

section \<open>Verified properties\<close>

subsection \<open>The motion of the pen\<close>

lemma uint_add_100: "uint (w::u16) < 65436 \<Longrightarrow> uint (w + 100) = uint w + 100"
  by (simp add: uint_plus_if')

lemma uint_sub_100: "100 \<le> uint (w::u16) \<Longrightarrow> uint (w - 100) = uint w - 100"
  by (simp add: uint_sub_if')

lemma motion_inv_step: "motion_inv s \<Longrightarrow> motion_inv (step s)"
proof (cases s)
  case (Pair r d)
  assume "motion_inv s"
  then show ?thesis using Pair
    apply (cases d)
    apply (simp_all add: Let_def BORDER_def MAX_X_def MAX_Y_def STEPSIZE_def uint_add_100 uint_sub_100)
    apply presburger+
    done
qed

lemma motion_inv_initial: "motion_inv initial_motion"
  by (simp add: initial_motion_def initial_report_def)

lemma motion_after_Suc: "motion_after (Suc n) = step (motion_after n)"
  by (simp add: motion_after_def)

lemma motion_inv_after: "motion_inv (motion_after n)"
proof (induction n)
  case 0
  show ?case by (simp add: motion_after_def motion_inv_initial)
next
  case (Suc n)
  then show ?case by (simp add: motion_after_Suc motion_inv_step)
qed

lemma motion_inv_rectangle:
  assumes "motion_inv s"
  shows "2000 \<le> uint (x (fst s)) \<and> uint (x (fst s)) \<le> 14000
       \<and> 2000 \<le> uint (y (fst s)) \<and> uint (y (fst s)) \<le> 7000"
proof (cases s)
  case (Pair r d)
  with assms show ?thesis by (cases d) simp_all
qed

lemma step_direction: "snd (step s) = snd s \<or> snd (step s) = clockwise (snd s)"
proof (cases s)
  case (Pair r d)
  then show ?thesis by (cases d) (simp_all add: Let_def)
qed

lemma motion_period: "(step ^^ 340) initial_motion = initial_motion"
  by code_simp

lemma motion_after_add: "motion_after (m + n) = (step ^^ n) (motion_after m)"
proof -
  have "m + n = n + m" by simp
  then show ?thesis by (simp only: motion_after_def funpow_add o_apply)
qed

lemma motion_after_traversals: "motion_after (340 * k) = initial_motion"
proof (induction k)
  case 0
  show ?case by (simp add: motion_after_def)
next
  case (Suc k)
  have "340 * Suc k = 340 * k + 340" by simp
  then have "motion_after (340 * Suc k) = motion_after (340 * k + 340)" by (rule arg_cong)
  also have "\<dots> = (step ^^ 340) (motion_after (340 * k))" by (rule motion_after_add)
  finally show ?case using Suc motion_period by simp
qed

lemma trajectory_funpow: "trajectory n s = map (\<lambda>i. (step ^^ i) s) [0..<n]"
proof (induction n arbitrary: s)
  case 0
  show ?case by simp
next
  case (Suc n)
  have "map (\<lambda>i. (step ^^ i) s) [0..<Suc n] = s # map (\<lambda>i. (step ^^ Suc i) s) [0..<n]"
    by (simp add: upt_conv_Cons map_Suc_upt [symmetric] del: upt_Suc funpow.simps)
  also have "\<dots> = s # map (\<lambda>i. (step ^^ i) (step s)) [0..<n]"
    by (simp add: funpow_swap1)
  finally show ?case using Suc by simp
qed

lemma traversal_directions:
  "map snd (trajectory 340 initial_motion) =
     replicate 120 MOTION_RIGHT @ replicate 50 MOTION_DOWN
     @ replicate 120 MOTION_LEFT @ replicate 50 MOTION_UP"
  by code_simp

text \<open>
  C3. From the initial report (\<open>x = 2000\<close>, \<open>y = 2000\<close>) and direction right, after any
  number of steps of 100 units the position is inside the rectangle from 2000 to 14000
  and from 2000 to 7000; a step either keeps the direction or turns it to its clockwise
  successor (right, down, left, up, right); a traversal takes 340 steps, brings the motion
  back to its initial state, and meets each direction in one run: 120 steps to the right,
  50 down, 120 to the left and 50 up.
\<close>

theorem motion_stays_on_rectangle:
  "2000 \<le> uint (x (fst (motion_after n))) \<and> uint (x (fst (motion_after n))) \<le> 14000
   \<and> 2000 \<le> uint (y (fst (motion_after n))) \<and> uint (y (fst (motion_after n))) \<le> 7000
   \<and> (snd (motion_after (Suc n)) = snd (motion_after n)
       \<or> snd (motion_after (Suc n)) = clockwise (snd (motion_after n)))
   \<and> motion_after (340 * k) = initial_motion
   \<and> map (\<lambda>i. snd (motion_after (340 * k + i))) [0..<340] =
       replicate 120 MOTION_RIGHT @ replicate 50 MOTION_DOWN
       @ replicate 120 MOTION_LEFT @ replicate 50 MOTION_UP"
proof -
  have rect: "2000 \<le> uint (x (fst (motion_after n))) \<and> uint (x (fst (motion_after n))) \<le> 14000
   \<and> 2000 \<le> uint (y (fst (motion_after n))) \<and> uint (y (fst (motion_after n))) \<le> 7000"
    by (rule motion_inv_rectangle [OF motion_inv_after])
  have dir: "snd (motion_after (Suc n)) = snd (motion_after n)
       \<or> snd (motion_after (Suc n)) = clockwise (snd (motion_after n))"
    unfolding motion_after_Suc by (rule step_direction)
  have "map (\<lambda>i. snd (motion_after (340 * k + i))) [0..<340]
        = map snd (map (\<lambda>i. (step ^^ i) initial_motion) [0..<340])"
    by (simp add: motion_after_add motion_after_traversals del: upt_Suc)
  also have "\<dots> = map snd (trajectory 340 initial_motion)"
    by (simp only: trajectory_funpow)
  finally have trav: "map (\<lambda>i. snd (motion_after (340 * k + i))) [0..<340] =
       replicate 120 MOTION_RIGHT @ replicate 50 MOTION_DOWN
       @ replicate 120 MOTION_LEFT @ replicate 50 MOTION_UP"
    by (simp only: traversal_directions)
  from rect dir motion_after_traversals trav show ?thesis by blast
qed

subsection \<open>The configuration descriptor\<close>

lemma sint_u32_upper: "sint (len :: u32) < 2147483648"
  using sint_lt [of len] by simp

lemma scast_nonneg:
  fixes len :: u32
  assumes "0 \<le> sint len"
  shows "uint (scast len :: u64) = sint len"
proof -
  have "sint len < 18446744073709551616" using sint_u32_upper [of len] by linarith
  then have "take_bit 64 (sint len) = sint len"
    using assms by (intro take_bit_int_eq_self) simp_all
  then show ?thesis
    by (simp only: scast_eq uint_word_of_int_eq len_bit0 len_num1 mult_numeral_1_right numeral_times_numeral numeral_eq_iff) simp
qed

lemma sint_sub_small:
  fixes len :: u32
  assumes "int n \<le> sint len"
  shows "sint (len - word_of_nat n) = sint len - int n"
proof -
  have ub: "sint len < 2147483648" by (rule sint_u32_upper)
  have "len - word_of_nat n = word_of_int (sint len) - word_of_int (int n)"
    by simp
  also have "\<dots> = word_of_int (sint len - int n)"
    by (simp only: wi_hom_sub)
  finally have "sint (len - word_of_nat n) = sint (word_of_int (sint len - int n) :: u32)"
    by (rule arg_cong)
  also have "\<dots> = signed_take_bit 31 (sint len - int n)"
    by (subst sint_sbintrunc') simp
  also have "\<dots> = sint len - int n"
    using assms ub by (intro signed_take_bit_int_eq_self) simp_all
  finally show ?thesis .
qed

lemma size_le_scast:
  fixes len :: u32
  assumes "int n \<le> sint len"
  shows "(word_of_nat n :: u64) \<le> scast len"
proof -
  have nn: "0 \<le> sint len" using assms by linarith
  have ub: "sint len < 2147483648" by (rule sint_u32_upper)
  have "int n < 18446744073709551616" using assms ub by linarith
  then have "n < 18446744073709551616" by linarith
  then have "take_bit 64 n = n"
    by (intro take_bit_nat_eq_self) simp_all
  then have "uint (word_of_nat n :: u64) = int n"
    by (simp add: unsigned_of_nat)
  then show ?thesis using assms scast_nonneg [OF nn] by (simp add: word_le_def)
qed


lemma catalog_sizes:
  "length (usb_config_bytes c) = 9" "length usb_interface = 9" "length usb_hid = 9"
  "length (usb_endpoint_bytes e) = 9"
  "length usb_device = 18" "length usb_qualifier = 10" "length usb_hid_report = 81"
  by (simp_all add: usb_config_bytes_def usb_interface_def usb_hid_def usb_endpoint_bytes_def
      USB_DT_ENDPOINT_SIZE_def le16_def usb_device_def usb_qualifier_def usb_hid_report_def)

lemma memcpy_inside:
  assumes "length pre = off" "length old = length src"
  shows "memcpy (pre @ old @ rest) off src = Inr (pre @ src @ rest)"
  using assms by (simp add: memcpy_def)

lemma split_chunk: "drop m buf = take n (drop m buf) @ drop (m + n) buf"
proof -
  have "drop (m + n) buf = drop n (drop m buf)" by (simp add: add.commute)
  then show ?thesis by (simp only: append_take_drop_id)
qed

lemma split_buffer:
  assumes "34 \<le> length buf"
  obtains p0 p1 p2 p3 where "buf = p0 @ p1 @ p2 @ p3 @ drop 34 buf"
    "length p0 = 9" "length p1 = 9" "length p2 = 9" "length p3 = 7"
proof
  have "buf = take 9 buf @ drop 9 buf" by simp
  also have "drop 9 buf = take 9 (drop 9 buf) @ drop 18 buf"
    using split_chunk [of 9 buf 9] by simp
  also have "drop 18 buf = take 9 (drop 18 buf) @ drop 27 buf"
    using split_chunk [of 18 buf 9] by simp
  also have "drop 27 buf = take 7 (drop 27 buf) @ drop 34 buf"
    using split_chunk [of 27 buf 7] by simp
  finally show "buf = take 9 buf @ take 9 (drop 9 buf) @ take 9 (drop 18 buf)
                  @ take 7 (drop 27 buf) @ drop 34 buf" .
  show "length (take 9 buf) = 9" "length (take 9 (drop 9 buf)) = 9"
    "length (take 9 (drop 18 buf)) = 9" "length (take 7 (drop 27 buf)) = 7"
    using assms by simp_all
qed

lemma catalog_total_34: "catalog_total = 34"
  by (simp add: catalog_total_def catalog_sizes USB_DT_ENDPOINT_SIZE_def)

lemma build_config_layout:
  assumes buf: "34 \<le> length buf" and len: "34 \<le> sint len"
  shows "build_config epd buf len =
           Inr (usb_config_bytes (usb_config\<lparr>wTotalLength := 34\<rparr>) @ usb_interface @ usb_hid
                @ take USB_DT_ENDPOINT_SIZE (usb_endpoint_bytes epd) @ drop 34 buf, 34)"
proof -
  from buf obtain p0 p1 p2 p3 where split: "buf = p0 @ p1 @ p2 @ p3 @ drop 34 buf"
    and l: "length p0 = 9" "length p1 = 9" "length p2 = 9" "length p3 = 7"
    by (rule split_buffer)
  define rest where "rest = drop 34 buf"
  have a0: "(9 :: u64) \<le> scast len"
    using len size_le_scast [of 9 len] by simp
  have s1: "sint (len - 9) = sint len - 9"
    using len sint_sub_small [of 9 len] by simp
  have a1: "(9 :: u64) \<le> scast (len - 9)"
    using len s1 size_le_scast [of 9 "len - 9"] by simp
  have s2: "sint (len - 18) = sint len - 18"
    using len sint_sub_small [of 18 len] by simp
  have a2: "(9 :: u64) \<le> scast (len - 18)"
    using len s2 size_le_scast [of 9 "len - 18"] by simp
  have s3: "sint (len - 27) = sint len - 27"
    using len sint_sub_small [of 27 len] by simp
  have a3: "7 \<le> sint (len - 27)"
    using len s3 by simp
  have m0: "memcpy (p0 @ p1 @ p2 @ p3 @ rest) 0 (usb_config_bytes usb_config)
              = Inr (usb_config_bytes usb_config @ p1 @ p2 @ p3 @ rest)"
    using memcpy_inside [of "[]" 0 p0 "usb_config_bytes usb_config"] l by (simp add: catalog_sizes)
  have m1: "memcpy (usb_config_bytes usb_config @ p1 @ p2 @ p3 @ rest) 9 usb_interface
              = Inr (usb_config_bytes usb_config @ usb_interface @ p2 @ p3 @ rest)"
    using l by (intro memcpy_inside) (simp_all add: catalog_sizes)
  have m2: "memcpy (usb_config_bytes usb_config @ usb_interface @ p2 @ p3 @ rest) 18 usb_hid
              = Inr (usb_config_bytes usb_config @ usb_interface @ usb_hid @ p3 @ rest)"
    using memcpy_inside [of "usb_config_bytes usb_config @ usb_interface" 18 p2 usb_hid "p3 @ rest"] l
    by (simp add: catalog_sizes)
  have m3: "memcpy (usb_config_bytes usb_config @ usb_interface @ usb_hid @ p3 @ rest) 27
              (take USB_DT_ENDPOINT_SIZE (usb_endpoint_bytes epd))
              = Inr (usb_config_bytes usb_config @ usb_interface @ usb_hid
                     @ take USB_DT_ENDPOINT_SIZE (usb_endpoint_bytes epd) @ rest)"
  proof -
    have "memcpy ((usb_config_bytes usb_config @ usb_interface @ usb_hid) @ p3 @ rest) 27
              (take USB_DT_ENDPOINT_SIZE (usb_endpoint_bytes epd))
              = Inr ((usb_config_bytes usb_config @ usb_interface @ usb_hid)
                     @ take USB_DT_ENDPOINT_SIZE (usb_endpoint_bytes epd) @ rest)"
      using l by (intro memcpy_inside) (simp_all add: catalog_sizes USB_DT_ENDPOINT_SIZE_def)
    then show ?thesis by simp
  qed
  have m4: "memcpy (usb_config_bytes usb_config @ tail) 2 (le16 34)
              = Inr (usb_config_bytes (usb_config\<lparr>wTotalLength := 34\<rparr>) @ tail)" for tail
    by (simp add: memcpy_def usb_config_bytes_def le16_def usb_config_def)
  have "build_config epd (p0 @ p1 @ p2 @ p3 @ rest) len =
           Inr (usb_config_bytes (usb_config\<lparr>wTotalLength := 34\<rparr>) @ usb_interface @ usb_hid
                @ take USB_DT_ENDPOINT_SIZE (usb_endpoint_bytes epd) @ rest, 34)"
    unfolding build_config_def
    by (simp add: Let_def catalog_sizes USB_DT_ENDPOINT_SIZE_def a0 a1 a2 a3 m0 m1 m2
        m3 [unfolded USB_DT_ENDPOINT_SIZE_def] m4)
  then show ?thesis using split by (simp add: rest_def)
qed


lemma take_drop_prefix:
  assumes "length b = n"
  shows "take n (b @ r) = b" "drop n (b @ r) = r"
  using assms by simp_all

text \<open>
  C2. When the caller's buffer and the length it passes are at least the byte sum of the
  configuration, interface, HID-class and endpoint descriptors, \<open>build_config\<close>
  succeeds and returns that sum; the two bytes of \<open>wTotalLength\<close> in the header of the
  assembled blob hold the same sum; the blob is the configuration header with that
  \<open>wTotalLength\<close>, followed by the interface, HID-class and endpoint descriptors, and the
  rest of the buffer is left as it was. The static \<open>usb_config\<close> itself carries
  \<open>wTotalLength = 0\<close>: the value is computed by the assembly.
\<close>

theorem build_config_total_length:
  assumes "catalog_total \<le> length buf" and "int catalog_total \<le> sint len"
  shows "\<exists>blob. build_config epd buf len = Inr (blob, word_of_nat catalog_total)
           \<and> unat (of_le16 (blob ! 2) (blob ! 3)) = catalog_total
           \<and> take catalog_total blob =
               usb_config_bytes (usb_config\<lparr>wTotalLength := word_of_nat catalog_total\<rparr>)
               @ usb_interface @ usb_hid @ take USB_DT_ENDPOINT_SIZE (usb_endpoint_bytes epd)
           \<and> drop catalog_total blob = drop catalog_total buf
           \<and> wTotalLength usb_config = 0"
proof -
  let ?blob = "usb_config_bytes (usb_config\<lparr>wTotalLength := 34\<rparr>) @ usb_interface @ usb_hid
                @ take USB_DT_ENDPOINT_SIZE (usb_endpoint_bytes epd)"
  have run: "build_config epd buf len = Inr (?blob @ drop 34 buf, 34)"
    using assms build_config_layout [of buf len epd] by (simp add: catalog_total_34)
  have len_blob: "length ?blob = 34"
    by (simp add: catalog_sizes USB_DT_ENDPOINT_SIZE_def)
  have field: "unat (of_le16 ((?blob @ drop 34 buf) ! 2) ((?blob @ drop 34 buf) ! 3)) = 34"
    by (simp add: usb_config_bytes_def le16_def of_le16_def)
  have tk: "take 34 (?blob @ drop 34 buf) = ?blob"
    using len_blob by (rule take_drop_prefix)
  have dr: "drop 34 (?blob @ drop 34 buf) = drop 34 buf"
    using len_blob by (rule take_drop_prefix)
  have z: "wTotalLength usb_config = 0" by (simp add: usb_config_def)
  show ?thesis
    unfolding catalog_total_34 using run field tk dr z by (simp del: append_assoc take_append drop_append)
qed

theorem build_config_total_length_witness:
  "catalog_total \<le> length (replicate 256 (0 :: u8)) \<and> int catalog_total \<le> sint (256 :: u32)
   \<and> (\<exists>blob. build_config usb_endpoint_init (replicate 256 0) 256 = Inr (blob, 34)
         \<and> unat (of_le16 (blob ! 2) (blob ! 3)) = 34)"
proof -
  have h1: "catalog_total \<le> length (replicate 256 (0 :: u8))" by (simp add: catalog_total_34)
  have h2: "int catalog_total \<le> sint (256 :: u32)" by (simp add: catalog_total_34)
  from build_config_total_length [OF h1 h2, of usb_endpoint_init] h1 h2
  show ?thesis by (auto simp add: catalog_total_34)
qed

text \<open>
  A negative \<open>length\<close> passes the first three assertions, which compare it as a size,
  and fails the fourth, which compares it as an \<open>int\<close>.
\<close>

lemma build_config_negative_length:
  "build_config usb_endpoint_init (replicate 256 0) (- 1) = Inl Assertion_failed"
  by code_simp

subsection \<open>Traces and failures\<close>

lemma bind_io_Inl: "bind_io (t, Inl e) f = (t, Inl e)"
  by (simp add: bind_io_def)

lemma bind_io_Inr: "bind_io (t, Inr v) f = (t @ fst (f v), snd (f v))"
  by (simp add: bind_io_def split: prod.splits)

lemma ioctl_ok: "0 \<le> rv \<Longrightarrow> ioctl a rv = ([a], Inr rv)"
  by (simp add: ioctl_def)

lemma ioctl_failed: "rv < 0 \<Longrightarrow> ioctl a rv = ([a], Inl Exit_failure)"
  by (simp add: ioctl_def)

subsection \<open>The endpoint negotiator\<close>

lemma assign_ep_address_assigned:
  "usb_endpoint_num epd \<noteq> 0 \<Longrightarrow> assign_ep_address info epd counter = Inr (False, epd, counter)"
  by (simp add: assign_ep_address_def)

lemma assign_loop_assigned:
  "usb_endpoint_num epd \<noteq> 0 \<Longrightarrow> assign_loop infos epd counter = Inr (epd, counter)"
  by (induction infos) (simp_all add: assign_ep_address_assigned)

lemma process_eps_info_assigned:
  assumes "usb_endpoint_num (usb_endpoint g) \<noteq> 0"
    and "0 \<le> eps_info_rv env" and "eps_info_rv env \<le> int USB_RAW_EPS_NUM_MAX"
  shows "process_eps_info env g = ([EPS_INFO], Inr g)"
  using assms
  by (simp add: process_eps_info_def usb_raw_eps_info_def ioctl_ok bind_io_Inr pure_io_def
      assign_loop_assigned Let_def)

lemma ep0_loop_body_connect:
  assumes "usb_endpoint_num (usb_endpoint g) \<noteq> 0" and "connect_event env"
  shows "ep0_loop_body env g = ([EVENT_FETCH, EPS_INFO], Inr g)"
proof -
  have p: "process_eps_info env g = ([EPS_INFO], Inr g)"
    using assms by (intro process_eps_info_assigned) (simp_all add: connect_event_def)
  have t: "uint (event_type env) = USB_RAW_EVENT_CONNECT" "0 \<le> event_fetch_rv env"
    using assms(2) by (simp_all add: connect_event_def)
  show ?thesis
    by (simp add: ep0_loop_body_def usb_raw_event_fetch_def ioctl_ok bind_io_Inr pure_io_def
        p t USB_RAW_EVENT_CONNECT_def USB_RAW_EVENT_CONTROL_def)
qed

lemma ep0_loop_connects:
  assumes "usb_endpoint_num (usb_endpoint g) \<noteq> 0" and "\<forall>env \<in> set envs. connect_event env"
  shows "snd (ep0_loop envs g) = Inr g"
  using assms(2)
proof (induction envs)
  case Nil
  show ?case by (simp add: pure_io_def)
next
  case (Cons env envs)
  then have "ep0_loop_body env g = ([EVENT_FETCH, EPS_INFO], Inr g)"
    using assms(1) by (intro ep0_loop_body_connect) simp_all
  moreover have "snd (ep0_loop envs g) = Inr g" using Cons by simp
  ultimately show ?case by (simp add: bind_io_Inr)
qed

text \<open>
  C7. On an endpoint descriptor whose endpoint number is already nonzero,
  \<open>assign_ep_address\<close> returns \<open>false\<close> and leaves the descriptor and the address
  counter as they are, whatever the capability entry; and any number of connect events
  handled by the event loop in that state leave the globals, so the assignment and the
  counter, unchanged.
\<close>

theorem assignment_idempotent:
  assumes "usb_endpoint_num (usb_endpoint g) \<noteq> 0"
    and "\<forall>env \<in> set envs. connect_event env"
  shows "assign_ep_address info (usb_endpoint g) (static_addr g)
           = Inr (False, usb_endpoint g, static_addr g)
       \<and> snd (ep0_loop envs g) = Inr g"
  using assms by (simp add: assign_ep_address_assigned ep0_loop_connects)

theorem assignment_idempotent_witness:
  "usb_endpoint_num (usb_endpoint assigned_globals) \<noteq> 0
   \<and> connect_event (connect_with [any_int_in])
   \<and> assign_ep_address any_int_in (usb_endpoint assigned_globals) (static_addr assigned_globals)
       = Inr (False, usb_endpoint assigned_globals, static_addr assigned_globals)
   \<and> snd (ep0_loop [connect_with [any_int_in], connect_with [any_int_in]] assigned_globals)
       = Inr assigned_globals"
proof -
  have h1: "usb_endpoint_num (usb_endpoint assigned_globals) \<noteq> 0"
    by (simp add: assigned_globals_def usb_endpoint_num_def USB_ENDPOINT_NUMBER_MASK_def)
  have c: "connect_event (connect_with [any_int_in])"
    by (simp add: connect_event_def connect_with_def quiet_env_def USB_RAW_EVENT_CONNECT_def
        USB_RAW_EPS_NUM_MAX_def)
  then have h2: "\<forall>env \<in> set [connect_with [any_int_in], connect_with [any_int_in]]. connect_event env"
    by simp
  from assignment_idempotent [OF h1 h2, of any_int_in] h1 c show ?thesis by simp
qed

lemma assign_ep_address_cases:
  assumes "assign_ep_address info epd counter = Inr (ok, epd', counter')"
  shows "(\<not> ok \<and> epd' = epd \<and> counter' = counter)
       \<or> (ok \<and> usb_endpoint_num epd = 0 \<and> uint (addr info) = USB_RAW_EP_ADDR_ANY
            \<and> epd' = epd\<lparr>bEndpointAddress := bEndpointAddress epd OR ucast counter\<rparr>
            \<and> counter' = counter + 1)
       \<or> (ok \<and> usb_endpoint_num epd = 0 \<and> uint (addr info) \<noteq> USB_RAW_EP_ADDR_ANY
            \<and> epd' = epd\<lparr>bEndpointAddress := bEndpointAddress epd OR ucast (addr info)\<rparr>
            \<and> counter' = counter)"
  using assms by (auto simp add: assign_ep_address_def split: if_splits)



lemma endpoint_num_or:
  fixes b w :: u8
  assumes "uint b AND 15 = 0" and "uint w < 16"
  shows "uint (b OR w) AND 15 = uint w"
proof -
  have "uint w AND 15 = uint w"
    using assms(2) take_bit_int_eq_self [of "uint w" 4] by (simp add: take_bit_eq_mask mask_eq_exp_minus_1)
  then show ?thesis using assms(1)
    by (simp add: uint_or bit.conj_disj_distrib2)
qed

lemma any_address_run:
  assumes "assign_run calls counter = Inr (log, counter')"
  shows "counter' = counter + word_of_nat (length (any_address_assignments log))
       \<and> (\<forall>n < length (any_address_assignments log).
            case any_address_assignments log ! n of (info, epd, ok, epd') \<Rightarrow>
              usb_endpoint_num epd = 0
              \<and> bEndpointAddress epd' = bEndpointAddress epd OR ucast (counter + word_of_nat n))"
  using assms
proof (induction calls arbitrary: counter log)
  case Nil
  then show ?case by (simp add: any_address_assignments_def)
next
  case (Cons call calls)
  obtain info epd where call: "call = (info, epd)" by (cases call)
  from Cons.prems call obtain ok epd' c1 rest where
    step: "assign_ep_address info epd counter = Inr (ok, epd', c1)"
    and run: "assign_run calls c1 = Inr (rest, counter')"
    and log: "log = (info, epd, ok, epd') # rest"
    by (auto split: sum.splits prod.splits)
  note IH = Cons.IH [OF run]
  from assign_ep_address_cases [OF step]
  consider (any) "ok" "usb_endpoint_num epd = 0" "uint (addr info) = USB_RAW_EP_ADDR_ANY"
      "epd' = epd\<lparr>bEndpointAddress := bEndpointAddress epd OR ucast counter\<rparr>" "c1 = counter + 1"
    | (other) "\<not> (ok \<and> uint (addr info) = USB_RAW_EP_ADDR_ANY)" "c1 = counter"
    by auto
  then show ?case
  proof cases
    case any
    then have anys: "any_address_assignments log = (info, epd, ok, epd') # any_address_assignments rest"
      by (simp add: log any_address_assignments_def)
    show ?thesis
    proof (intro conjI allI impI)
      show "counter' = counter + word_of_nat (length (any_address_assignments log))"
        using IH any by (simp add: anys)
    next
      fix n assume n: "n < length (any_address_assignments log)"
      show "case any_address_assignments log ! n of (info, epd, ok, epd') \<Rightarrow>
              usb_endpoint_num epd = 0
              \<and> bEndpointAddress epd' = bEndpointAddress epd OR ucast (counter + word_of_nat n)"
      proof (cases n)
        case 0
        then have "any_address_assignments log ! n = (info, epd, ok, epd')"
          by (simp add: anys)
        then show ?thesis using any(2,4) 0 by simp
      next
        case (Suc m)
        then have m: "m < length (any_address_assignments rest)" using n anys by simp
        from IH have "\<forall>n < length (any_address_assignments rest).
            case any_address_assignments rest ! n of (info, epd, ok, epd') \<Rightarrow>
              usb_endpoint_num epd = 0
              \<and> bEndpointAddress epd' = bEndpointAddress epd OR ucast (c1 + word_of_nat n)"
          by (rule conjunct2)
        then have "m < length (any_address_assignments rest) \<longrightarrow>
            (case any_address_assignments rest ! m of (info, epd, ok, epd') \<Rightarrow>
              usb_endpoint_num epd = 0
              \<and> bEndpointAddress epd' = bEndpointAddress epd OR ucast (c1 + word_of_nat m))"
          by (rule spec)
        from this m have "case any_address_assignments rest ! m of (info, epd, ok, epd') \<Rightarrow>
              usb_endpoint_num epd = 0
              \<and> bEndpointAddress epd' = bEndpointAddress epd OR ucast (c1 + word_of_nat m)"
          by (rule mp)
        moreover have "c1 + word_of_nat m = counter + word_of_nat n"
          using Suc any(5) by simp
        moreover have "any_address_assignments log ! n = any_address_assignments rest ! m"
          using Suc by (simp add: anys)
        ultimately show ?thesis by (simp only:)
      qed
    qed
  next
    case other
    then have "any_address_assignments log = any_address_assignments rest"
      by (auto simp add: log any_address_assignments_def)
    then show ?thesis using IH other by simp
  qed
qed

lemma fixed_address_run:
  assumes "assign_run calls counter = Inr (log, counter')"
  shows "\<forall>(info, epd, ok, epd') \<in> set (fixed_address_assignments log).
           usb_endpoint_num epd = 0
           \<and> bEndpointAddress epd' = bEndpointAddress epd OR ucast (addr info)"
  using assms
proof (induction calls arbitrary: counter log)
  case Nil
  then show ?case by (simp add: fixed_address_assignments_def)
next
  case (Cons call calls)
  obtain info epd where call: "call = (info, epd)" by (cases call)
  from Cons.prems call obtain ok epd' c1 rest where
    step: "assign_ep_address info epd counter = Inr (ok, epd', c1)"
    and run: "assign_run calls c1 = Inr (rest, counter')"
    and log: "log = (info, epd, ok, epd') # rest"
    by (auto split: sum.splits prod.splits)
  note IH = Cons.IH [OF run]
  from assign_ep_address_cases [OF step] IH show ?case
    by (auto simp add: log fixed_address_assignments_def)
qed

lemma ucast_counter: "(ucast (1 + word_of_nat n :: u32) :: u8) = word_of_nat (Suc n)"
proof -
  have "(1 + word_of_nat n :: u32) = word_of_int (int (Suc n))" by simp
  then have "(ucast (1 + word_of_nat n :: u32) :: u8) = ucast (word_of_int (int (Suc n)) :: u32)"
    by (simp only:)
  also have "\<dots> = word_of_int (int (Suc n))"
    by (rule ucast_down_wi) (simp add: is_down)
  also have "\<dots> = word_of_nat (Suc n)" by simp
  finally show ?thesis .
qed

lemma uint_small_byte: "k < 16 \<Longrightarrow> uint (word_of_nat k :: u8) = int k"
proof -
  assume "k < 16"
  then have "take_bit 8 k = k" by (intro take_bit_nat_eq_self) simp
  then show ?thesis by (simp add: unsigned_of_nat)
qed

lemma uint_ucast_small: "uint (w :: u32) < 16 \<Longrightarrow> uint (ucast w :: u8) = uint w"
proof -
  assume "uint w < 16"
  then have "take_bit 8 (uint w) = uint w" by (intro take_bit_int_eq_self) simp_all
  then show ?thesis by (simp add: unsigned_ucast_eq)
qed

text \<open>
  C8, amended. In a run of calls of \<open>assign_ep_address\<close> that starts with the counter at
  its initial value 1, the \<open>n\<close>-th call that succeeds on an any-address entry puts the
  counter's value \<open>n\<close> into the address byte of its descriptor (by \<open>|=\<close>, so modulo 256,
  on a descriptor whose endpoint number was 0), the counter ends at 1 plus the number of
  such calls, and the endpoint number of the descriptor becomes \<open>n\<close> as long as \<open>n\<close> is
  below 16, the range of the four bits that hold it; a call that succeeds on an entry
  with a fixed address puts that address into the byte instead, and the endpoint number
  becomes that address, under the same bound.
\<close>

theorem any_address_counts_from_one:
  assumes "assign_run calls 1 = Inr (log, counter)"
  shows "(\<forall>n < length (any_address_assignments log).
            case any_address_assignments log ! n of (info, epd, ok, epd') \<Rightarrow>
              bEndpointAddress epd' = bEndpointAddress epd OR word_of_nat (Suc n)
              \<and> (Suc n < 16 \<longrightarrow> usb_endpoint_num epd' = int (Suc n)))
       \<and> counter = 1 + word_of_nat (length (any_address_assignments log))
       \<and> (\<forall>(info, epd, ok, epd') \<in> set (fixed_address_assignments log).
            bEndpointAddress epd' = bEndpointAddress epd OR ucast (addr info)
            \<and> (uint (addr info) < 16 \<longrightarrow> usb_endpoint_num epd' = uint (addr info)))"
proof (intro conjI allI impI)
  show "counter = 1 + word_of_nat (length (any_address_assignments log))"
    using any_address_run [OF assms] by simp
next
  fix n assume n: "n < length (any_address_assignments log)"
  obtain info epd ok epd' where e: "any_address_assignments log ! n = (info, epd, ok, epd')"
    by (cases "any_address_assignments log ! n")
  from any_address_run [OF assms] have "\<forall>n < length (any_address_assignments log).
            case any_address_assignments log ! n of (info, epd, ok, epd') \<Rightarrow>
              usb_endpoint_num epd = 0
              \<and> bEndpointAddress epd' = bEndpointAddress epd OR ucast (1 + word_of_nat n :: u32)"
    by (rule conjunct2)
  then have "n < length (any_address_assignments log) \<longrightarrow>
            (case any_address_assignments log ! n of (info, epd, ok, epd') \<Rightarrow>
              usb_endpoint_num epd = 0
              \<and> bEndpointAddress epd' = bEndpointAddress epd OR ucast (1 + word_of_nat n :: u32))"
    by (rule spec)
  from this n have "case any_address_assignments log ! n of (info, epd, ok, epd') \<Rightarrow>
              usb_endpoint_num epd = 0
              \<and> bEndpointAddress epd' = bEndpointAddress epd OR ucast (1 + word_of_nat n :: u32)"
    by (rule mp)
  then have zero: "usb_endpoint_num epd = 0"
    and byte: "bEndpointAddress epd' = bEndpointAddress epd OR word_of_nat (Suc n)"
    by (simp_all only: e prod.case ucast_counter)
  have "usb_endpoint_num epd' = int (Suc n)" if "Suc n < 16"
  proof -
    have "uint (word_of_nat (Suc n) :: u8) = int (Suc n)" using that by (rule uint_small_byte)
    moreover have "uint (word_of_nat (Suc n) :: u8) < 16" using that calculation by simp
    moreover have "uint (bEndpointAddress epd) AND 15 = 0"
      using zero by (simp add: usb_endpoint_num_def USB_ENDPOINT_NUMBER_MASK_def)
    ultimately show ?thesis
      using endpoint_num_or [of "bEndpointAddress epd" "word_of_nat (Suc n)"]
      by (simp only: usb_endpoint_num_def USB_ENDPOINT_NUMBER_MASK_def byte)
  qed
  with byte show "case any_address_assignments log ! n of (info, epd, ok, epd') \<Rightarrow>
              bEndpointAddress epd' = bEndpointAddress epd OR word_of_nat (Suc n)
              \<and> (Suc n < 16 \<longrightarrow> usb_endpoint_num epd' = int (Suc n))"
    by (simp only: e prod.case) simp
next
  show "\<forall>(info, epd, ok, epd') \<in> set (fixed_address_assignments log).
            bEndpointAddress epd' = bEndpointAddress epd OR ucast (addr info)
            \<and> (uint (addr info) < 16 \<longrightarrow> usb_endpoint_num epd' = uint (addr info))"
  proof (clarify, intro conjI impI)
    fix info epd ok epd'
    assume mem: "(info, epd, ok, epd') \<in> set (fixed_address_assignments log)"
    with fixed_address_run [OF assms]
    have zero: "usb_endpoint_num epd = 0"
      and byte: "bEndpointAddress epd' = bEndpointAddress epd OR ucast (addr info)"
      by auto
    show "bEndpointAddress epd' = bEndpointAddress epd OR ucast (addr info)" by (rule byte)
    assume small: "uint (addr info) < 16"
    have "uint (ucast (addr info) :: u8) = uint (addr info)" using small by (rule uint_ucast_small)
    moreover have "uint (ucast (addr info) :: u8) < 16" using small calculation by simp
    moreover have "uint (bEndpointAddress epd) AND 15 = 0"
      using zero by (simp add: usb_endpoint_num_def USB_ENDPOINT_NUMBER_MASK_def)
    ultimately show "usb_endpoint_num epd' = uint (addr info)"
      using endpoint_num_or [of "bEndpointAddress epd" "ucast (addr info)"]
      by (simp only: usb_endpoint_num_def USB_ENDPOINT_NUMBER_MASK_def byte)
  qed
qed

lemma example_run:
  "assign_run example_calls 1 =
     Inr ([(any_int_in, usb_endpoint_init, True, usb_endpoint_init\<lparr>bEndpointAddress := 0x81\<rparr>),
           (any_int_in, usb_endpoint_init, True, usb_endpoint_init\<lparr>bEndpointAddress := 0x82\<rparr>),
           (fixed_int_in 3, usb_endpoint_init, True,
            usb_endpoint_init\<lparr>bEndpointAddress := 0x83\<rparr>)], 3)"
  by (simp add: example_calls_def assign_ep_address_def any_int_in_def fixed_int_in_def
     usb_endpoint_init_def
     usb_endpoint_num_def usb_endpoint_type_def usb_endpoint_dir_in_def usb_endpoint_dir_out_def
     USB_DIR_IN_def USB_DIR_OUT_def EP_NUM_INT_IN_def USB_ENDPOINT_XFER_INT_def USB_ENDPOINT_XFER_BULK_def
     USB_ENDPOINT_NUMBER_MASK_def USB_ENDPOINT_DIR_MASK_def USB_ENDPOINT_XFERTYPE_MASK_def
     USB_RAW_EP_ADDR_ANY_def USB_DT_ENDPOINT_SIZE_def USB_DT_ENDPOINT_def EP_MAX_PACKET_INT_def)

text \<open>
  Counterexample to C8 as stated: of sixteen calls in a row on an any-address entry, the
  sixteenth does not give its endpoint the address 16: the address byte becomes \<open>0x90\<close>,
  whose endpoint number is 0, the mark of an endpoint without an address.
\<close>

theorem sixteenth_assignment_counterexample:
  "assign_run sixteen_calls 1 = Inr (sixteen_assignments, 17)
   \<and> any_address_assignments sixteen_assignments = sixteen_assignments
   \<and> sixteen_assignments ! 15
       = (any_int_in, usb_endpoint_init, True, usb_endpoint_init\<lparr>bEndpointAddress := 0x90\<rparr>)
   \<and> usb_endpoint_num (usb_endpoint_init\<lparr>bEndpointAddress := 0x90\<rparr>) = 0"
  by code_simp

theorem any_address_counts_from_one_witness:
  "assign_run example_calls 1 =
     Inr ([(any_int_in, usb_endpoint_init, True, usb_endpoint_init\<lparr>bEndpointAddress := 0x81\<rparr>),
           (any_int_in, usb_endpoint_init, True, usb_endpoint_init\<lparr>bEndpointAddress := 0x82\<rparr>),
           (fixed_int_in 3, usb_endpoint_init, True,
            usb_endpoint_init\<lparr>bEndpointAddress := 0x83\<rparr>)], 3)
   \<and> usb_endpoint_num (usb_endpoint_init\<lparr>bEndpointAddress := 0x81\<rparr>) = 1
   \<and> usb_endpoint_num (usb_endpoint_init\<lparr>bEndpointAddress := 0x82\<rparr>) = 2
   \<and> usb_endpoint_num (usb_endpoint_init\<lparr>bEndpointAddress := 0x83\<rparr>) = 3"
  using any_address_counts_from_one [OF example_run]
  by (simp add: example_run usb_endpoint_num_def USB_ENDPOINT_NUMBER_MASK_def)

subsection \<open>String descriptors\<close>

lemma string_sizes:
  "length (units_bytes languages) = 2"
  "length (units_bytes manufacturer_en_us) = 32"
  "length (units_bytes product_en_us) = 32"
  "length (units_bytes serial_en_us) = 18"
  by (simp_all add: units_bytes_def languages_def manufacturer_en_us_def product_en_us_def
      serial_en_us_def char16_literal_def le16_def)

lemma header_update:
  assumes "2 \<le> length buf"
  shows "take 2 (buf[0 := a, Suc 0 := b]) = [a, b]"
    and "drop (2 + n) (buf[0 := a, Suc 0 := b]) = drop (2 + n) buf"
    and "buf[0 := a, Suc 0 := b] ! 0 = a"
proof -
  from assms obtain p q rest where "buf = p # q # rest"
    by (cases buf; cases "tl buf") auto
  then show "take 2 (buf[0 := a, Suc 0 := b]) = [a, b]"
    and "drop (2 + n) (buf[0 := a, Suc 0 := b]) = drop (2 + n) buf"
    and "buf[0 := a, Suc 0 := b] ! 0 = a"
    by simp_all
qed

lemma write_string:
  assumes "length buf = EP0_MAX_DATA" and "length payload \<le> 125"
  shows "memcpy (buf[0 := a, Suc 0 := b]) 2 payload
           = Inr ([a, b] @ payload @ drop (2 + length payload) buf)"
proof -
  have "2 \<le> length buf" using assms by (simp add: EP0_MAX_DATA_def)
  then have "take 2 (buf[0 := a, Suc 0 := b]) = [a, b]"
    and "drop (2 + length payload) (buf[0 := a, Suc 0 := b]) = drop (2 + length payload) buf"
    by (rule header_update)+
  moreover have "2 + length payload \<le> length (buf[0 := a, Suc 0 := b])"
    using assms by (simp add: EP0_MAX_DATA_def)
  ultimately show ?thesis by (simp add: memcpy_def)
qed

lemma scast_small_byte: "n \<le> 127 \<Longrightarrow> (scast (word_of_nat n :: u8) :: u32) = word_of_nat n"
proof -
  assume n: "n \<le> 127"
  have "sint (word_of_nat n :: u8) = signed_take_bit 7 (int n)"
    using sint_sbintrunc' [of "int n", where 'a = 8] by simp
  also have "\<dots> = int n" using n by (intro signed_take_bit_int_eq_self) simp_all
  finally show ?thesis by (simp add: scast_eq)
qed

lemma fill_string_payload:
  assumes "length (data io) = EP0_MAX_DATA" and "string_array sid lang = Some payload"
  shows "fill_string_descriptor sid lang io =
           Inr (True, io\<lparr>data := [word_of_nat (length payload + 2), word_of_int USB_DT_STRING]
                                  @ payload @ drop (2 + length payload) (data io),
                          inner_length := word_of_nat (length payload + 2)\<rparr>)"
proof -
  have small: "length payload \<le> 125"
    using assms(2) by (auto simp add: string_array_def string_sizes split: if_splits)
  have chosen: "(if sid = 0 \<and> lang = 0 then Inr (Some (units_bytes languages))
         else if \<not> uint sid > 0 then Inl Assertion_failed
         else if \<not> uint lang = LANG_EN_US then Inl Assertion_failed
         else if uint sid = STRING_ID_MANUFACTURER then Inr (Some (units_bytes manufacturer_en_us))
         else if uint sid = STRING_ID_PRODUCT then Inr (Some (units_bytes product_en_us))
         else if uint sid = STRING_ID_SERIAL then Inr (Some (units_bytes serial_en_us))
         else Inr None) = Inr (Some payload)"
    using assms(2)
    by (auto simp add: string_array_def STRING_ID_MANUFACTURER_def STRING_ID_PRODUCT_def
        STRING_ID_SERIAL_def split: if_splits)
  have sc: "(scast (word_of_nat (length payload + 2) :: u8) :: u32) = word_of_nat (length payload + 2)"
    using small by (intro scast_small_byte) simp
  show ?thesis
    unfolding fill_string_descriptor_def chosen
    using write_string [OF assms(1) small] sc
    by (simp add: Let_def)
qed

lemma fill_string_unknown:
  assumes "unknown_string sid lang"
  shows "fill_string_descriptor sid lang io = Inr (False, io)"
proof -
  have "0 < uint sid" using assms by (simp add: unknown_string_def word_greater_zero_iff [symmetric] word_less_def)
  then show ?thesis using assms
    by (simp add: fill_string_descriptor_def unknown_string_def)
qed

lemma fill_string_assert:
  assumes "\<not> (sid = 0 \<and> lang = 0)" and "sid = 0 \<or> uint lang \<noteq> LANG_EN_US"
  shows "fill_string_descriptor sid lang io = Inl Assertion_failed"
  using assms by (auto simp add: fill_string_descriptor_def)


lemma string_arrays:
  "units_bytes manufacturer_en_us = units_bytes (string_of manufacturer_en_us) @ [0, 0]"
  "units_bytes product_en_us = units_bytes (string_of product_en_us) @ [0, 0]"
  "units_bytes serial_en_us = units_bytes (string_of serial_en_us) @ [0, 0]"
  by (simp_all add: units_bytes_def string_of_def manufacturer_en_us_def product_en_us_def
      serial_en_us_def char16_literal_def le16_def)

lemma string_lengths:
  "length (units_bytes (string_of manufacturer_en_us)) = 30"
  "length (units_bytes (string_of product_en_us)) = 30"
  "length (units_bytes (string_of serial_en_us)) = 16"
proof -
  have "length (units_bytes manufacturer_en_us)
          = length (units_bytes (string_of manufacturer_en_us)) + 2"
    "length (units_bytes product_en_us) = length (units_bytes (string_of product_en_us)) + 2"
    "length (units_bytes serial_en_us) = length (units_bytes (string_of serial_en_us)) + 2"
    by (simp_all add: string_arrays)
  then show "length (units_bytes (string_of manufacturer_en_us)) = 30"
    "length (units_bytes (string_of product_en_us)) = 30"
    "length (units_bytes (string_of serial_en_us)) = 16"
    by (simp_all add: string_sizes)
qed

lemma string_table_array:
  assumes "string_table sid lang = Some payload"
  shows "\<exists>arr. string_array sid lang = Some arr \<and> take (length payload) arr = payload
           \<and> (sid = 0 \<longrightarrow> arr = payload)"
proof (cases "sid = 0 \<and> lang = 0")
  case True
  with assms show ?thesis by (simp add: string_table_def string_array_def)
next
  case False
  from assms False
  consider (manufacturer) "uint lang = LANG_EN_US" "uint sid = STRING_ID_MANUFACTURER"
        "payload = units_bytes (string_of manufacturer_en_us)"
    | (product) "uint lang = LANG_EN_US" "uint sid \<noteq> STRING_ID_MANUFACTURER"
        "uint sid = STRING_ID_PRODUCT" "payload = units_bytes (string_of product_en_us)"
    | (serial) "uint lang = LANG_EN_US" "uint sid \<noteq> STRING_ID_MANUFACTURER"
        "uint sid \<noteq> STRING_ID_PRODUCT" "uint sid = STRING_ID_SERIAL"
        "payload = units_bytes (string_of serial_en_us)"
    by (auto simp add: string_table_def split: if_splits)
  then show ?thesis
  proof cases
    case manufacturer
    moreover have "sid \<noteq> 0"
      using manufacturer(2) by (auto simp add: STRING_ID_MANUFACTURER_def)
    ultimately show ?thesis using False by (simp add: string_array_def string_arrays)
  next
    case product
    moreover have "sid \<noteq> 0"
      using product(3) by (auto simp add: STRING_ID_PRODUCT_def)
    ultimately show ?thesis using False by (simp add: string_array_def string_arrays)
  next
    case serial
    moreover have "sid \<noteq> 0"
      using serial(4) by (auto simp add: STRING_ID_SERIAL_def)
    ultimately show ?thesis using False by (simp add: string_array_def string_arrays)
  qed
qed

text \<open>
  C9, amended. On an \<open>io\<close> whose buffer has its \<open>EP0_MAX_DATA\<close> bytes: for every
  pair of string id and language that the string table defines (id 0 with language 0;
  ids 1, 2 and 3 with language \<open>0x0409\<close>), \<open>fill_string_descriptor\<close> returns \<open>true\<close> with
  byte 1 equal to \<open>USB_DT_STRING\<close> and the UTF-16 payload from byte 2 on; for the list of
  languages (id 0) byte 0 is the payload's byte length plus 2. For language \<open>0x0409\<close> and
  an id that is none of 0, 1, 2, 3 it returns \<open>false\<close>, the unsupported result, and leaves
  \<open>io\<close> alone. Every other pair fails one of the two assertions.
\<close>

theorem string_descriptor_format:
  assumes "length (data io) = EP0_MAX_DATA"
  shows "(string_table sid lang = Some payload \<longrightarrow>
            (\<exists>io'. fill_string_descriptor sid lang io = Inr (True, io')
               \<and> data io' ! 1 = word_of_int USB_DT_STRING
               \<and> take (length payload) (drop 2 (data io')) = payload
               \<and> (sid = 0 \<longrightarrow> data io' ! 0 = word_of_nat (length payload + 2))))
       \<and> (unknown_string sid lang \<longrightarrow> fill_string_descriptor sid lang io = Inr (False, io))
       \<and> (string_table sid lang = None \<and> \<not> unknown_string sid lang \<longrightarrow>
            fill_string_descriptor sid lang io = Inl Assertion_failed)"
proof (intro conjI impI)
  assume "string_table sid lang = Some payload"
  then obtain arr where arr: "string_array sid lang = Some arr"
    and pre: "take (length payload) arr = payload" and whole: "sid = 0 \<longrightarrow> arr = payload"
    using string_table_array by blast
  let ?d = "[word_of_nat (length arr + 2), word_of_int USB_DT_STRING]
              @ arr @ drop (2 + length arr) (data io)"
  have run: "fill_string_descriptor sid lang io =
               Inr (True, io\<lparr>data := ?d, inner_length := word_of_nat (length arr + 2)\<rparr>)"
    by (rule fill_string_payload [OF assms arr])
  have "length (take (length payload) arr) = length payload" by (simp only: pre)
  then have "length payload \<le> length arr" by simp
  then have "take (length payload) (drop 2 ?d) = payload" using pre by simp
  moreover have "?d ! 1 = word_of_int USB_DT_STRING" by simp
  moreover have "sid = 0 \<longrightarrow> ?d ! 0 = word_of_nat (length payload + 2)" using whole by simp
  ultimately show "\<exists>io'. fill_string_descriptor sid lang io = Inr (True, io')
               \<and> data io' ! 1 = word_of_int USB_DT_STRING
               \<and> take (length payload) (drop 2 (data io')) = payload
               \<and> (sid = 0 \<longrightarrow> data io' ! 0 = word_of_nat (length payload + 2))"
    using run by simp
next
  assume "unknown_string sid lang"
  then show "fill_string_descriptor sid lang io = Inr (False, io)" by (rule fill_string_unknown)
next
  assume a: "string_table sid lang = None \<and> \<not> unknown_string sid lang"
  then have "\<not> (sid = 0 \<and> lang = 0)" by (auto simp add: string_table_def)
  moreover have "sid = 0 \<or> uint lang \<noteq> LANG_EN_US"
    using a by (auto simp add: string_table_def unknown_string_def split: if_splits)
  ultimately show "fill_string_descriptor sid lang io = Inl Assertion_failed"
    by (rule fill_string_assert)
qed

text \<open>
  Counterexample to C9 as stated: string id 4 is not defined, and with language 0 the
  operation does not yield the unsupported result but fails \<open>assert(lang == LANG_EN_US)\<close>.
\<close>

theorem undefined_string_counterexample:
  "string_table 4 0 = None \<and> fill_string_descriptor 4 0 zero_io = Inl Assertion_failed"
  by (simp add: string_table_def fill_string_descriptor_def LANG_EN_US_def)

theorem string_descriptor_format_witness:
  "length (data zero_io) = EP0_MAX_DATA
   \<and> string_table 1 0x409 = Some (units_bytes (string_of manufacturer_en_us))
   \<and> (\<exists>io'. fill_string_descriptor 1 0x409 zero_io = Inr (True, io')
         \<and> data io' ! 1 = 3
         \<and> take 30 (drop 2 (data io')) = units_bytes (string_of manufacturer_en_us))
   \<and> string_table 0 0 = Some (units_bytes languages)
   \<and> (\<exists>io'. fill_string_descriptor 0 0 zero_io = Inr (True, io')
         \<and> data io' ! 0 = 4 \<and> data io' ! 1 = 3
         \<and> take 2 (drop 2 (data io')) = units_bytes languages)
   \<and> unknown_string 4 0x409
   \<and> fill_string_descriptor 4 0x409 zero_io = Inr (False, zero_io)
   \<and> string_table 0 0x409 = None \<and> \<not> unknown_string 0 0x409
   \<and> fill_string_descriptor 0 0x409 zero_io = Inl Assertion_failed"
proof -
  have h: "length (data zero_io) = EP0_MAX_DATA" by (simp add: zero_io_def)
  have d: "string_table 1 0x409 = Some (units_bytes (string_of manufacturer_en_us))"
    by (simp add: string_table_def LANG_EN_US_def STRING_ID_MANUFACTURER_def)
  have l: "string_table 0 0 = Some (units_bytes languages)"
    by (simp add: string_table_def)
  have u: "unknown_string 4 0x409"
    by (simp add: unknown_string_def LANG_EN_US_def STRING_ID_MANUFACTURER_def
        STRING_ID_PRODUCT_def STRING_ID_SERIAL_def)
  have n: "string_table 0 0x409 = None \<and> \<not> unknown_string 0 0x409"
    by (simp add: string_table_def unknown_string_def LANG_EN_US_def STRING_ID_MANUFACTURER_def
        STRING_ID_PRODUCT_def STRING_ID_SERIAL_def)
  note s30 = string_lengths(1)
  from string_descriptor_format [OF h, of 1 "0x409" "units_bytes (string_of manufacturer_en_us)"] d
  have 1: "\<exists>io'. fill_string_descriptor 1 0x409 zero_io = Inr (True, io')
         \<and> data io' ! 1 = 3
         \<and> take 30 (drop 2 (data io')) = units_bytes (string_of manufacturer_en_us)"
    by (simp add: s30 USB_DT_STRING_def)
  from string_descriptor_format [OF h, of 0 0 "units_bytes languages"] l
  have 2: "\<exists>io'. fill_string_descriptor 0 0 zero_io = Inr (True, io')
         \<and> data io' ! 0 = 4 \<and> data io' ! 1 = 3
         \<and> take 2 (drop 2 (data io')) = units_bytes languages"
    by (simp add: string_sizes USB_DT_STRING_def) blast
  from string_descriptor_format [OF h, of 4 "0x409"] u
  have 3: "fill_string_descriptor 4 0x409 zero_io = Inr (False, zero_io)" by blast
  from string_descriptor_format [OF h, of 0 "0x409"] n
  have 4: "fill_string_descriptor 0 0x409 zero_io = Inl Assertion_failed" by blast
  from h d l u n 1 2 3 4 show ?thesis by blast
qed

text \<open>
  What the amended claim leaves out: for the ids 1, 2 and 3 the length is taken with
  \<open>sizeof\<close> from a \<open>char16_t\<close> array, which counts the terminating zero unit. The
  manufacturer string has 30 bytes; its descriptor says 34 in byte 0 and carries two
  zero bytes after the string.
\<close>

lemma string_length_counts_terminator:
  "length (units_bytes (string_of manufacturer_en_us)) = 30
   \<and> fill_string_descriptor 1 0x409 zero_io =
       Inr (True, zero_io\<lparr>data := [34, 3] @ units_bytes (string_of manufacturer_en_us) @ [0, 0]
                                      @ replicate 222 0,
                            inner_length := 34\<rparr>)"
proof -
  have a: "string_array 1 0x409 = Some (units_bytes manufacturer_en_us)"
    by (simp add: string_array_def LANG_EN_US_def STRING_ID_MANUFACTURER_def)
  have h: "length (data zero_io) = EP0_MAX_DATA" by (simp add: zero_io_def)
  note n = string_lengths(1)
  from fill_string_payload [OF h a] n show ?thesis
    by (simp add: string_sizes string_arrays(1) USB_DT_STRING_def zero_io_def EP0_MAX_DATA_def)
qed

subsection \<open>The outcomes of the dispatcher\<close>

lemmas ch9_values =
  USB_TYPE_STANDARD_def USB_TYPE_CLASS_def USB_TYPE_VENDOR_def USB_REQ_GET_DESCRIPTOR_def
  USB_REQ_SET_CONFIGURATION_def USB_REQ_GET_INTERFACE_def USB_DT_DEVICE_def USB_DT_CONFIG_def
  USB_DT_STRING_def USB_DT_DEVICE_QUALIFIER_def HID_DT_REPORT_def HID_REQ_SET_REPORT_def
  HID_REQ_SET_IDLE_def HID_REQ_SET_PROTOCOL_def

lemmas request_vocabulary =
  request_class_def request_code_def descriptor_type_def string_id_def get_descriptor_def
  string_request_def set_configuration_def set_idle_def

lemma ep0_request_string:
  assumes "string_request c"
  shows "ep0_request env g c io =
           pure_io (case fill_string_descriptor (string_id c) (wIndex c) io of
                      Inl f \<Rightarrow> Inl f
                    | Inr (reply, io) \<Rightarrow> Inr (reply, io, g))"
  using assms by (simp add: ep0_request_def request_vocabulary ch9_values Let_def)

lemma ep0_request_device:
  assumes "get_descriptor c" and "descriptor_type c = USB_DT_DEVICE"
  shows "ep0_request env g c io =
           pure_io (case memcpy (data io) 0 usb_device of
                      Inl f \<Rightarrow> Inl f
                    | Inr d \<Rightarrow>
                        Inr (True, io\<lparr>data := d, inner_length := word_of_nat (length usb_device)\<rparr>, g))"
  using assms by (simp add: ep0_request_def request_vocabulary ch9_values Let_def)

lemma ep0_request_set_configuration:
  assumes "set_configuration c"
  shows "ep0_request env g c io =
           bind_io (usb_raw_ep_enable env (usb_endpoint g)) (\<lambda>rv.
           bind_io (usb_raw_vbus_draw env (ucast (bMaxPower usb_config))) (\<lambda>_.
           bind_io (usb_raw_configure env) (\<lambda>_.
           pure_io (Inr (True, io\<lparr>inner_length := 0\<rparr>, g\<lparr>ep_int_in := rv\<rparr>)))))"
  using assms by (simp add: ep0_request_def request_vocabulary ch9_values Let_def)

lemma ep0_request_set_idle:
  assumes "set_idle c"
  shows "ep0_request env g c io =
           (if ep_int_in_thread g = 0 then
              ([PTHREAD_CREATE (pthread_create_ok env)],
               Inr (True, io\<lparr>inner_length := 0\<rparr>,
                    g\<lparr>ep_int_in_thread := pthread_create_handle env\<rparr>))
            else pure_io (Inr (True, io\<lparr>inner_length := 0\<rparr>, g)))"
  using assms by (simp add: ep0_request_def request_vocabulary ch9_values Let_def)

lemma ep0_request_unknown_standard:
  assumes "request_class c = USB_TYPE_STANDARD"
    and "request_code c \<noteq> USB_REQ_GET_DESCRIPTOR"
    and "request_code c \<noteq> USB_REQ_SET_CONFIGURATION"
    and "request_code c \<noteq> USB_REQ_GET_INTERFACE"
  shows "ep0_request env g c io = ([], Inl Exit_failure)"
  using assms by (simp add: ep0_request_def request_vocabulary pure_io_def Let_def)

lemma ep0_request_unknown_descriptor:
  assumes "get_descriptor c"
    and "descriptor_type c \<noteq> USB_DT_DEVICE" and "descriptor_type c \<noteq> USB_DT_DEVICE_QUALIFIER"
    and "descriptor_type c \<noteq> USB_DT_CONFIG" and "descriptor_type c \<noteq> USB_DT_STRING"
    and "descriptor_type c \<noteq> HID_DT_REPORT"
  shows "ep0_request env g c io = ([], Inl Exit_failure)"
  using assms by (simp add: ep0_request_def request_vocabulary pure_io_def Let_def)

lemma ep0_request_unknown_class_request:
  assumes "request_class c = USB_TYPE_CLASS"
    and "request_code c \<noteq> HID_REQ_SET_REPORT" and "request_code c \<noteq> HID_REQ_SET_IDLE"
    and "request_code c \<noteq> HID_REQ_SET_PROTOCOL"
  shows "ep0_request env g c io = ([], Inl Exit_failure)"
  using assms by (simp add: ep0_request_def request_vocabulary ch9_values pure_io_def Let_def)

lemma ep0_request_vendor:
  assumes "request_class c = USB_TYPE_VENDOR"
  shows "ep0_request env g c io = ([], Inl Exit_failure)"
  using assms by (simp add: ep0_request_def request_vocabulary ch9_values pure_io_def Let_def)

lemma ep0_request_unknown_class:
  assumes "request_class c \<noteq> USB_TYPE_STANDARD" and "request_class c \<noteq> USB_TYPE_CLASS"
    and "request_class c \<noteq> USB_TYPE_VENDOR"
  shows "ep0_request env g c io = ([], Inl Exit_failure)"
  using assms by (simp add: ep0_request_def request_vocabulary pure_io_def Let_def)

lemma ioctl_cases: "ioctl a rv = ([a], Inl Exit_failure) \<or> ioctl a rv = ([a], Inr rv)"
  by (simp add: ioctl_def)

lemma ep0_request_reply:
  assumes "\<not> string_request c" and "ep0_request env g c io = (t, Inr (reply, io', g'))"
  shows "reply"
  using assms
  by (auto simp add: ep0_request_def request_vocabulary pure_io_def bind_io_def ioctl_def Let_def
      usb_raw_ep_enable_def usb_raw_vbus_draw_def usb_raw_configure_def
      split: if_splits sum.splits prod.splits)


lemma fill_string_false:
  assumes "fill_string_descriptor sid lang io = Inr (False, io')"
  shows "unknown_string sid lang"
  using assms
  by (auto simp add: fill_string_descriptor_def unknown_string_def Let_def
      split: if_splits sum.splits)

lemma ep0_request_stall_iff:
  "(\<exists>t io' g'. ep0_request env g c io = (t, Inr (False, io', g'))) \<longleftrightarrow> stall_shape c"
proof
  assume "\<exists>t io' g'. ep0_request env g c io = (t, Inr (False, io', g'))"
  then obtain t io' g' where r: "ep0_request env g c io = (t, Inr (False, io', g'))" by blast
  have s: "string_request c" using ep0_request_reply [OF _ r] by blast
  from r have "fill_string_descriptor (string_id c) (wIndex c) io = Inr (False, io')"
    by (auto simp add: ep0_request_string [OF s] pure_io_def split: sum.splits)
  then have "unknown_string (string_id c) (wIndex c)" by (rule fill_string_false)
  with s show "stall_shape c" by (simp add: stall_shape_def)
next
  assume "stall_shape c"
  then have s: "string_request c" and u: "unknown_string (string_id c) (wIndex c)"
    by (simp_all add: stall_shape_def)
  show "\<exists>t io' g'. ep0_request env g c io = (t, Inr (False, io', g'))"
    by (simp add: ep0_request_string [OF s] fill_string_unknown [OF u] pure_io_def)
qed

lemma ep0_request_stall:
  assumes "stall_shape c"
  shows "ep0_request env g c io = ([], Inr (False, io, g))"
proof -
  from assms have s: "string_request c" and u: "unknown_string (string_id c) (wIndex c)"
    by (simp_all add: stall_shape_def)
  show ?thesis by (simp add: ep0_request_string [OF s] fill_string_unknown [OF u] pure_io_def)
qed

lemma ep0_request_string_assert:
  assumes "string_request c" and "\<not> (string_id c = 0 \<and> wIndex c = 0)"
    and "string_id c = 0 \<or> uint (wIndex c) \<noteq> LANG_EN_US"
  shows "ep0_request env g c io = ([], Inl Assertion_failed)"
  by (simp add: ep0_request_string [OF assms(1)] fill_string_assert [OF assms(2,3)] pure_io_def)

text \<open>
  C10. \<open>ep0_request\<close> returns \<open>false\<close>, on which the loop stalls, for exactly one
  shape of request: a standard GET_DESCRIPTOR of type STRING with language \<open>0x0409\<close> and
  a string id that is neither 0 nor 1, 2 or 3; it then has made no call and changed
  nothing. Each other request without a handler ends the process by \<open>exit\<close>: a standard
  request other than GET_DESCRIPTOR, SET_CONFIGURATION and GET_INTERFACE, a GET_DESCRIPTOR
  of a type other than the five handled ones, a class request other than SET_REPORT,
  SET_IDLE and SET_PROTOCOL, every vendor request, and every request of the remaining
  type class. A string request whose id and language are neither a defined pair nor of
  the stalled shape (id 0 with a nonzero language, or a nonzero id with a language other
  than \<open>0x0409\<close>) fails an assertion.
\<close>

theorem stall_only_for_unknown_string:
  "((\<exists>t io' g'. ep0_request env g c io = (t, Inr (False, io', g'))) \<longleftrightarrow> stall_shape c)
   \<and> (stall_shape c \<longrightarrow> ep0_request env g c io = ([], Inr (False, io, g)))
   \<and> (request_class c = USB_TYPE_STANDARD \<and> request_code c \<noteq> USB_REQ_GET_DESCRIPTOR
        \<and> request_code c \<noteq> USB_REQ_SET_CONFIGURATION \<and> request_code c \<noteq> USB_REQ_GET_INTERFACE
      \<longrightarrow> ep0_request env g c io = ([], Inl Exit_failure))
   \<and> (get_descriptor c \<and> descriptor_type c \<noteq> USB_DT_DEVICE
        \<and> descriptor_type c \<noteq> USB_DT_DEVICE_QUALIFIER \<and> descriptor_type c \<noteq> USB_DT_CONFIG
        \<and> descriptor_type c \<noteq> USB_DT_STRING \<and> descriptor_type c \<noteq> HID_DT_REPORT
      \<longrightarrow> ep0_request env g c io = ([], Inl Exit_failure))
   \<and> (request_class c = USB_TYPE_CLASS \<and> request_code c \<noteq> HID_REQ_SET_REPORT
        \<and> request_code c \<noteq> HID_REQ_SET_IDLE \<and> request_code c \<noteq> HID_REQ_SET_PROTOCOL
      \<longrightarrow> ep0_request env g c io = ([], Inl Exit_failure))
   \<and> (request_class c = USB_TYPE_VENDOR \<longrightarrow> ep0_request env g c io = ([], Inl Exit_failure))
   \<and> (request_class c \<noteq> USB_TYPE_STANDARD \<and> request_class c \<noteq> USB_TYPE_CLASS
        \<and> request_class c \<noteq> USB_TYPE_VENDOR
      \<longrightarrow> ep0_request env g c io = ([], Inl Exit_failure))
   \<and> (string_request c \<and> \<not> (string_id c = 0 \<and> wIndex c = 0)
        \<and> (string_id c = 0 \<or> uint (wIndex c) \<noteq> LANG_EN_US)
      \<longrightarrow> ep0_request env g c io = ([], Inl Assertion_failed))"
  using ep0_request_stall_iff [of env g c io] ep0_request_stall [of c env g io]
    ep0_request_unknown_standard [of c env g io] ep0_request_unknown_descriptor [of c env g io]
    ep0_request_unknown_class_request [of c env g io] ep0_request_vendor [of c env g io]
    ep0_request_unknown_class [of c env g io] ep0_request_string_assert [of c env g io]
  by blast


lemmas example_inputs =
  control_with_def connect_with_def quiet_env_def zero_io_def initial_globals_def

lemmas program_values =
  LANG_EN_US_def STRING_ID_MANUFACTURER_def STRING_ID_PRODUCT_def STRING_ID_SERIAL_def
  USB_TYPE_MASK_def USB_DIR_IN_def USB_RAW_EVENT_CONNECT_def USB_RAW_EVENT_CONTROL_def

theorem stall_only_for_unknown_string_witness:
  "stall_shape (event_ctrl (control_with 0x80 6 0x0304 0x0409 255))
   \<and> ep0_request quiet_env initial_globals (event_ctrl (control_with 0x80 6 0x0304 0x0409 255))
         zero_io = ([], Inr (False, zero_io, initial_globals))
   \<and> ep0_request quiet_env initial_globals (event_ctrl (control_with 0x80 0 0 0 2)) zero_io
       = ([], Inl Exit_failure)
   \<and> ep0_request quiet_env initial_globals (event_ctrl (control_with 0x80 6 0x0F00 0 5)) zero_io
       = ([], Inl Exit_failure)
   \<and> ep0_request quiet_env initial_globals (event_ctrl (control_with 0xA1 1 0x0106 0 8)) zero_io
       = ([], Inl Exit_failure)
   \<and> ep0_request quiet_env initial_globals (event_ctrl (control_with 0xC0 1 0 0 8)) zero_io
       = ([], Inl Exit_failure)
   \<and> ep0_request quiet_env initial_globals (event_ctrl (control_with 0xE0 1 0 0 8)) zero_io
       = ([], Inl Exit_failure)
   \<and> ep0_request quiet_env initial_globals (event_ctrl (control_with 0x80 6 0x0304 0 255)) zero_io
       = ([], Inl Assertion_failed)"
proof -
  let ?r = "\<lambda>c. ep0_request quiet_env initial_globals c zero_io"
  let ?stall = "event_ctrl (control_with 0x80 6 0x0304 0x0409 255)"
  have s: "stall_shape ?stall"
    by (simp add: stall_shape_def unknown_string_def request_vocabulary ch9_values
        program_values example_inputs)
  have 1: "?r ?stall = ([], Inr (False, zero_io, initial_globals))"
    using stall_only_for_unknown_string [of quiet_env initial_globals ?stall zero_io] s by blast
  have 2: "?r (event_ctrl (control_with 0x80 0 0 0 2)) = ([], Inl Exit_failure)"
    using stall_only_for_unknown_string
      [of quiet_env initial_globals "event_ctrl (control_with 0x80 0 0 0 2)" zero_io]
    by (simp add: request_vocabulary ch9_values program_values example_inputs)
  have 3: "?r (event_ctrl (control_with 0x80 6 0x0F00 0 5)) = ([], Inl Exit_failure)"
    using stall_only_for_unknown_string
      [of quiet_env initial_globals "event_ctrl (control_with 0x80 6 0x0F00 0 5)" zero_io]
    by (simp add: request_vocabulary ch9_values program_values example_inputs)
  have 4: "?r (event_ctrl (control_with 0xA1 1 0x0106 0 8)) = ([], Inl Exit_failure)"
    using stall_only_for_unknown_string
      [of quiet_env initial_globals "event_ctrl (control_with 0xA1 1 0x0106 0 8)" zero_io]
    by (simp add: request_vocabulary ch9_values program_values example_inputs)
  have 5: "?r (event_ctrl (control_with 0xC0 1 0 0 8)) = ([], Inl Exit_failure)"
    using stall_only_for_unknown_string
      [of quiet_env initial_globals "event_ctrl (control_with 0xC0 1 0 0 8)" zero_io]
    by (simp add: request_vocabulary ch9_values program_values example_inputs)
  have 6: "?r (event_ctrl (control_with 0xE0 1 0 0 8)) = ([], Inl Exit_failure)"
    using stall_only_for_unknown_string
      [of quiet_env initial_globals "event_ctrl (control_with 0xE0 1 0 0 8)" zero_io]
    by (simp add: request_vocabulary ch9_values program_values example_inputs)
  have 7: "?r (event_ctrl (control_with 0x80 6 0x0304 0 255)) = ([], Inl Assertion_failed)"
    using stall_only_for_unknown_string
      [of quiet_env initial_globals "event_ctrl (control_with 0x80 6 0x0304 0 255)" zero_io]
    by (simp add: request_vocabulary ch9_values program_values example_inputs)
  from s 1 2 3 4 5 6 7 show ?thesis by blast
qed

subsection \<open>The event loop on control events\<close>

lemma stack_io_length: "length (data (stack_io env)) = EP0_MAX_DATA"
  by (simp add: stack_io_def EP0_MAX_DATA_def)

lemma ep0_loop_body_control:
  assumes "0 \<le> event_fetch_rv env" and "uint (event_type env) = USB_RAW_EVENT_CONTROL"
  shows "ep0_loop_body env g =
     bind_io ([EVENT_FETCH], Inr (event_fetch_rv env)) (\<lambda>_.
     bind_io (ep0_request env g (event_ctrl env) (stack_io env)) (\<lambda>(reply, io, g).
          if \<not> reply then bind_io (usb_raw_ep0_stall env) (\<lambda>_. pure_io (Inr g))
          else
            let io = (if (ucast (wLength (event_ctrl env)) :: u32) < inner_length io
                      then io\<lparr>inner_length := ucast (wLength (event_ctrl env))\<rparr> else io)
            in if uint (bRequestType (event_ctrl env)) AND USB_DIR_IN \<noteq> 0
               then bind_io (usb_raw_ep0_write env io) (\<lambda>_. pure_io (Inr g))
               else bind_io (usb_raw_ep0_read env io) (\<lambda>_. pure_io (Inr g))))"
  using assms
  by (simp add: ep0_loop_body_def usb_raw_event_fetch_def ioctl_ok bind_io_Inr pure_io_def
      USB_RAW_EVENT_CONNECT_def USB_RAW_EVENT_CONTROL_def Let_def)

lemma ep0_loop_body_fatal:
  assumes "0 \<le> event_fetch_rv env" and "uint (event_type env) = USB_RAW_EVENT_CONTROL"
    and "ep0_request env g (event_ctrl env) (stack_io env) = (t, Inl f)"
  shows "ep0_loop_body env g = (EVENT_FETCH # t, Inl f)"
  by (simp add: ep0_loop_body_control [OF assms(1,2)] assms(3) bind_io_Inr bind_io_Inl)

lemma ep0_loop_body_stall:
  assumes "0 \<le> event_fetch_rv env" and "uint (event_type env) = USB_RAW_EVENT_CONTROL"
    and "ep0_request env g (event_ctrl env) (stack_io env) = (t, Inr (False, io, g'))"
  shows "ep0_loop_body env g =
           (EVENT_FETCH # t @ [EP0_STALL],
            if ep0_stall_rv env < 0 then Inl Exit_failure else Inr g')"
  by (simp add: ep0_loop_body_control [OF assms(1,2)] assms(3) bind_io_Inr bind_io_Inl
      usb_raw_ep0_stall_def ioctl_def pure_io_def)

lemma unat_clamped:
  fixes wl :: u16 and l :: u32
  shows "unat (if ucast wl < l then ucast wl else l) = min (unat wl) (unat l)"
proof -
  have "uint (ucast wl :: u32) = uint wl"
    by (rule uint_up_ucast) (simp add: is_up)
  then have "unat (ucast wl :: u32) = unat wl"
    by (simp only: unat_eq_nat_uint)
  then show ?thesis by (simp add: word_less_nat_alt min_def)
qed

lemma ep0_loop_body_transfer:
  assumes "0 \<le> event_fetch_rv env" and "uint (event_type env) = USB_RAW_EVENT_CONTROL"
    and "ep0_request env g (event_ctrl env) (stack_io env) = (t, Inr (True, io, g'))"
    and "n = (if ucast (wLength (event_ctrl env)) < inner_length io
              then ucast (wLength (event_ctrl env)) else inner_length io)"
  shows "ep0_loop_body env g =
           (if uint (bRequestType (event_ctrl env)) AND USB_DIR_IN \<noteq> 0
            then (EVENT_FETCH # t @ [EP0_WRITE n (take (unat n) (data io))],
                  if ep0_write_rv env < 0 then Inl Exit_failure else Inr g')
            else (EVENT_FETCH # t @ [EP0_READ n],
                  if ep0_read_rv env < 0 then Inl Exit_failure else Inr g'))"
  by (simp add: ep0_loop_body_control [OF assms(1,2)] assms(3,4) bind_io_Inr bind_io_Inl
      usb_raw_ep0_write_def usb_raw_ep0_read_def ioctl_def pure_io_def Let_def)

lemma device_request:
  assumes "get_descriptor c" and "descriptor_type c = USB_DT_DEVICE"
  shows "ep0_request env g c (stack_io env) =
           ([], Inr (True, (stack_io env)\<lparr>data := usb_device @ drop 18 (data (stack_io env)),
                                           inner_length := 18\<rparr>, g))"
proof -
  have "memcpy (data (stack_io env)) 0 usb_device
          = Inr (usb_device @ drop 18 (data (stack_io env)))"
    using stack_io_length [of env] by (simp add: memcpy_def catalog_sizes EP0_MAX_DATA_def)
  then show ?thesis
    by (simp add: ep0_request_device [OF assms] pure_io_def catalog_sizes)
qed

text \<open>
  C1. In an iteration of the event loop on a control event, when \<open>ep0_request\<close> has
  computed a response of length \<open>L\<close>, the one transfer that follows is issued with the
  length \<open>min wLength L\<close>, in the direction of the request's direction bit, an IN
  transfer carrying that many leading bytes of the response: a longer response is cut to
  \<open>wLength\<close>, a shorter one is never extended. A GET_DESCRIPTOR(DEVICE) request in the IN
  direction transfers the 18 bytes of the device descriptor with \<open>wLength = 18\<close>, and its
  first 8 bytes with \<open>wLength = 8\<close>.
\<close>

theorem transfer_length_is_minimum:
  assumes "0 \<le> event_fetch_rv env" and "uint (event_type env) = USB_RAW_EVENT_CONTROL"
  shows "(\<forall>t io g'. ep0_request env g (event_ctrl env) (stack_io env) = (t, Inr (True, io, g'))
            \<longrightarrow> (\<exists>n. unat n = min (unat (wLength (event_ctrl env))) (unat (inner_length io))
                  \<and> ep0_loop_body env g =
                      (if uint (bRequestType (event_ctrl env)) AND USB_DIR_IN \<noteq> 0
                       then (EVENT_FETCH # t @ [EP0_WRITE n (take (unat n) (data io))],
                             if ep0_write_rv env < 0 then Inl Exit_failure else Inr g')
                       else (EVENT_FETCH # t @ [EP0_READ n],
                             if ep0_read_rv env < 0 then Inl Exit_failure else Inr g'))))
       \<and> (get_descriptor (event_ctrl env) \<and> descriptor_type (event_ctrl env) = USB_DT_DEVICE
            \<and> uint (bRequestType (event_ctrl env)) AND USB_DIR_IN \<noteq> 0
            \<and> wLength (event_ctrl env) = 18
          \<longrightarrow> fst (ep0_loop_body env g) = [EVENT_FETCH, EP0_WRITE 18 usb_device])
       \<and> (get_descriptor (event_ctrl env) \<and> descriptor_type (event_ctrl env) = USB_DT_DEVICE
            \<and> uint (bRequestType (event_ctrl env)) AND USB_DIR_IN \<noteq> 0
            \<and> wLength (event_ctrl env) = 8
          \<longrightarrow> fst (ep0_loop_body env g) = [EVENT_FETCH, EP0_WRITE 8 (take 8 usb_device)])"
proof (intro conjI allI impI)
  fix t io g'
  assume r: "ep0_request env g (event_ctrl env) (stack_io env) = (t, Inr (True, io, g'))"
  define n where "n = (if ucast (wLength (event_ctrl env)) < inner_length io
              then ucast (wLength (event_ctrl env)) else inner_length io)"
  have "unat n = min (unat (wLength (event_ctrl env))) (unat (inner_length io))"
    unfolding n_def by (rule unat_clamped)
  with ep0_loop_body_transfer [OF assms r n_def]
  show "\<exists>n. unat n = min (unat (wLength (event_ctrl env))) (unat (inner_length io))
                  \<and> ep0_loop_body env g =
                      (if uint (bRequestType (event_ctrl env)) AND USB_DIR_IN \<noteq> 0
                       then (EVENT_FETCH # t @ [EP0_WRITE n (take (unat n) (data io))],
                             if ep0_write_rv env < 0 then Inl Exit_failure else Inr g')
                       else (EVENT_FETCH # t @ [EP0_READ n],
                             if ep0_read_rv env < 0 then Inl Exit_failure else Inr g'))"
    by blast
next
  assume a: "get_descriptor (event_ctrl env) \<and> descriptor_type (event_ctrl env) = USB_DT_DEVICE
            \<and> uint (bRequestType (event_ctrl env)) AND USB_DIR_IN \<noteq> 0
            \<and> wLength (event_ctrl env) = 18"
  then have r: "ep0_request env g (event_ctrl env) (stack_io env) =
           ([], Inr (True, (stack_io env)\<lparr>data := usb_device @ drop 18 (data (stack_io env)),
                                           inner_length := 18\<rparr>, g))"
    by (intro device_request) simp_all
  show "fst (ep0_loop_body env g) = [EVENT_FETCH, EP0_WRITE 18 usb_device]"
    using a by (simp add: ep0_loop_body_transfer [OF assms r refl] catalog_sizes)
next
  assume a: "get_descriptor (event_ctrl env) \<and> descriptor_type (event_ctrl env) = USB_DT_DEVICE
            \<and> uint (bRequestType (event_ctrl env)) AND USB_DIR_IN \<noteq> 0
            \<and> wLength (event_ctrl env) = 8"
  then have r: "ep0_request env g (event_ctrl env) (stack_io env) =
           ([], Inr (True, (stack_io env)\<lparr>data := usb_device @ drop 18 (data (stack_io env)),
                                           inner_length := 18\<rparr>, g))"
    by (intro device_request) simp_all
  show "fst (ep0_loop_body env g) = [EVENT_FETCH, EP0_WRITE 8 (take 8 usb_device)]"
    using a by (simp add: ep0_loop_body_transfer [OF assms r refl] catalog_sizes)
qed


theorem transfer_length_is_minimum_witness:
  "0 \<le> event_fetch_rv (control_with 0x80 6 0x0100 0 8)
   \<and> uint (event_type (control_with 0x80 6 0x0100 0 8)) = USB_RAW_EVENT_CONTROL
   \<and> get_descriptor (event_ctrl (control_with 0x80 6 0x0100 0 8))
   \<and> descriptor_type (event_ctrl (control_with 0x80 6 0x0100 0 8)) = USB_DT_DEVICE
   \<and> (\<exists>n. unat n = 8
         \<and> ep0_loop_body (control_with 0x80 6 0x0100 0 8) initial_globals =
             ([EVENT_FETCH, EP0_WRITE n (take (unat n) usb_device)], Inr initial_globals))
   \<and> fst (ep0_loop_body (control_with 0x80 6 0x0100 0 8) initial_globals)
       = [EVENT_FETCH, EP0_WRITE 8 (take 8 usb_device)]
   \<and> fst (ep0_loop_body (control_with 0x80 6 0x0100 0 18) initial_globals)
       = [EVENT_FETCH, EP0_WRITE 18 usb_device]"
proof -
  let ?e8 = "control_with 0x80 6 0x0100 0 8" and ?e18 = "control_with 0x80 6 0x0100 0 18"
  have f8: "0 \<le> event_fetch_rv ?e8" and f18: "0 \<le> event_fetch_rv ?e18"
    by (simp_all add: example_inputs)
  have t8: "uint (event_type ?e8) = USB_RAW_EVENT_CONTROL"
    and t18: "uint (event_type ?e18) = USB_RAW_EVENT_CONTROL"
    by (simp_all add: example_inputs program_values)
  have d8: "get_descriptor (event_ctrl ?e8)" "descriptor_type (event_ctrl ?e8) = USB_DT_DEVICE"
    and d18: "get_descriptor (event_ctrl ?e18)" "descriptor_type (event_ctrl ?e18) = USB_DT_DEVICE"
    by (simp_all add: request_vocabulary ch9_values program_values example_inputs)
  have in8: "uint (bRequestType (event_ctrl ?e8)) AND USB_DIR_IN \<noteq> 0"
    and in18: "uint (bRequestType (event_ctrl ?e18)) AND USB_DIR_IN \<noteq> 0"
    by (simp_all add: program_values example_inputs)
  have w8: "wLength (event_ctrl ?e8) = 8" and w18: "wLength (event_ctrl ?e18) = 18"
    by (simp_all add: example_inputs)
  have r8: "ep0_request ?e8 initial_globals (event_ctrl ?e8) (stack_io ?e8) =
           ([], Inr (True, (stack_io ?e8)\<lparr>data := usb_device @ drop 18 (data (stack_io ?e8)),
                                           inner_length := 18\<rparr>, initial_globals))"
    using d8 by (rule device_request)
  from transfer_length_is_minimum [OF f8 t8, of initial_globals] r8 in8 w8
  have "\<exists>n. unat n = 8
         \<and> ep0_loop_body ?e8 initial_globals =
             ([EVENT_FETCH, EP0_WRITE n (take (unat n) usb_device)], Inr initial_globals)"
    by (auto simp add: catalog_sizes example_inputs)
  moreover from transfer_length_is_minimum [OF f8 t8, of initial_globals] d8 in8 w8
  have "fst (ep0_loop_body ?e8 initial_globals) = [EVENT_FETCH, EP0_WRITE 8 (take 8 usb_device)]"
    by blast
  moreover from transfer_length_is_minimum [OF f18 t18, of initial_globals] d18 in18 w18
  have "fst (ep0_loop_body ?e18 initial_globals) = [EVENT_FETCH, EP0_WRITE 18 usb_device]"
    by blast
  ultimately show ?thesis using f8 t8 d8 by blast
qed


lemma ep0_request_no_stall: "EP0_STALL \<notin> set (fst (ep0_request env g c io))"
  by (auto simp add: ep0_request_def pure_io_def bind_io_def ioctl_def Let_def
      usb_raw_ep_enable_def usb_raw_vbus_draw_def usb_raw_configure_def
      split: if_splits sum.splits prod.splits)

lemma ep0_loop_body_stalls_iff:
  assumes "0 \<le> event_fetch_rv env" and "uint (event_type env) = USB_RAW_EVENT_CONTROL"
  shows "EP0_STALL \<in> set (fst (ep0_loop_body env g)) \<longleftrightarrow> stall_shape (event_ctrl env)"
proof -
  obtain t r where q: "ep0_request env g (event_ctrl env) (stack_io env) = (t, r)" by force
  have ns: "EP0_STALL \<notin> set t"
    using ep0_request_no_stall [of env g "event_ctrl env" "stack_io env"] q by simp
  have shape: "r = Inr (False, stack_io env, g)" if "stall_shape (event_ctrl env)"
    using ep0_request_stall [OF that, of env g "stack_io env"] q by simp
  show ?thesis
  proof (cases r)
    case (Inl f)
    then have "\<not> stall_shape (event_ctrl env)" using shape by auto
    moreover have "ep0_loop_body env g = (EVENT_FETCH # t, Inl f)"
      using ep0_loop_body_fatal [OF assms] q Inl by simp
    ultimately show ?thesis using ns by simp
  next
    case (Inr v)
    obtain reply io' g' where v: "v = (reply, io', g')" by (cases v)
    show ?thesis
    proof (cases reply)
      case True
      then have "\<not> stall_shape (event_ctrl env)" using shape Inr v by auto
      moreover have "EP0_STALL \<notin> set (fst (ep0_loop_body env g))"
        using ep0_loop_body_transfer [OF assms, of g t io' g', OF _ refl] q Inr v True ns
        by (simp split: if_splits)
      ultimately show ?thesis by simp
    next
      case False
      then have "stall_shape (event_ctrl env)"
        using ep0_request_stall_iff [of env g "event_ctrl env" "stack_io env"] q Inr v by auto
      moreover have "EP0_STALL \<in> set (fst (ep0_loop_body env g))"
        using ep0_loop_body_stall [OF assms, of g t io' g'] q Inr v False by simp
      ultimately show ?thesis by simp
    qed
  qed
qed

text \<open>
  C4, amended. In an iteration of the event loop on a control event, a request that the
  dispatcher does not recognise ends the process before any transfer or stall. It ends
  by \<open>exit\<close> for a GET_DESCRIPTOR with a descriptor type other than the five handled
  ones, a standard request other than the three handled ones, a class request other than
  the three handled ones, a vendor request, and a request of the remaining type class;
  it ends by a failed assertion for a GET_DESCRIPTOR(STRING) whose id and language are
  neither a defined pair nor of the stalled shape. The control endpoint is stalled if
  and only if the request is a GET_DESCRIPTOR(STRING) with language \<open>0x0409\<close> and a string
  id that is none of 0, 1, 2, 3: the loop then issues the stall alone and, the stall
  accepted, goes on with its globals unchanged.
\<close>

theorem unrecognised_request_outcome:
  assumes "0 \<le> event_fetch_rv env" and "uint (event_type env) = USB_RAW_EVENT_CONTROL"
  shows "(EP0_STALL \<in> set (fst (ep0_loop_body env g)) \<longleftrightarrow> stall_shape (event_ctrl env))
       \<and> (stall_shape (event_ctrl env) \<longrightarrow>
            ep0_loop_body env g =
              ([EVENT_FETCH, EP0_STALL],
               if ep0_stall_rv env < 0 then Inl Exit_failure else Inr g))
       \<and> (get_descriptor (event_ctrl env) \<and> descriptor_type (event_ctrl env) \<noteq> USB_DT_DEVICE
            \<and> descriptor_type (event_ctrl env) \<noteq> USB_DT_DEVICE_QUALIFIER
            \<and> descriptor_type (event_ctrl env) \<noteq> USB_DT_CONFIG
            \<and> descriptor_type (event_ctrl env) \<noteq> USB_DT_STRING
            \<and> descriptor_type (event_ctrl env) \<noteq> HID_DT_REPORT
          \<longrightarrow> ep0_loop_body env g = ([EVENT_FETCH], Inl Exit_failure))
       \<and> (request_class (event_ctrl env) = USB_TYPE_STANDARD
            \<and> request_code (event_ctrl env) \<noteq> USB_REQ_GET_DESCRIPTOR
            \<and> request_code (event_ctrl env) \<noteq> USB_REQ_SET_CONFIGURATION
            \<and> request_code (event_ctrl env) \<noteq> USB_REQ_GET_INTERFACE
          \<longrightarrow> ep0_loop_body env g = ([EVENT_FETCH], Inl Exit_failure))
       \<and> (request_class (event_ctrl env) = USB_TYPE_CLASS
            \<and> request_code (event_ctrl env) \<noteq> HID_REQ_SET_REPORT
            \<and> request_code (event_ctrl env) \<noteq> HID_REQ_SET_IDLE
            \<and> request_code (event_ctrl env) \<noteq> HID_REQ_SET_PROTOCOL
          \<longrightarrow> ep0_loop_body env g = ([EVENT_FETCH], Inl Exit_failure))
       \<and> (request_class (event_ctrl env) = USB_TYPE_VENDOR
          \<longrightarrow> ep0_loop_body env g = ([EVENT_FETCH], Inl Exit_failure))
       \<and> (request_class (event_ctrl env) \<noteq> USB_TYPE_STANDARD
            \<and> request_class (event_ctrl env) \<noteq> USB_TYPE_CLASS
            \<and> request_class (event_ctrl env) \<noteq> USB_TYPE_VENDOR
          \<longrightarrow> ep0_loop_body env g = ([EVENT_FETCH], Inl Exit_failure))
       \<and> (string_request (event_ctrl env)
            \<and> \<not> (string_id (event_ctrl env) = 0 \<and> wIndex (event_ctrl env) = 0)
            \<and> (string_id (event_ctrl env) = 0 \<or> uint (wIndex (event_ctrl env)) \<noteq> LANG_EN_US)
          \<longrightarrow> ep0_loop_body env g = ([EVENT_FETCH], Inl Assertion_failed))"
proof -
  note fatal = ep0_loop_body_fatal [OF assms, of g "[]" Exit_failure, simplified]
  note abort = ep0_loop_body_fatal [OF assms, of g "[]" Assertion_failed, simplified]
  have "ep0_loop_body env g =
              ([EVENT_FETCH, EP0_STALL],
               if ep0_stall_rv env < 0 then Inl Exit_failure else Inr g)"
    if "stall_shape (event_ctrl env)"
    using ep0_loop_body_stall [OF assms ep0_request_stall [OF that]] by simp
  then show ?thesis
    using ep0_loop_body_stalls_iff [OF assms, of g]
      fatal [OF ep0_request_unknown_descriptor] fatal [OF ep0_request_unknown_standard]
      fatal [OF ep0_request_unknown_class_request] fatal [OF ep0_request_vendor]
      fatal [OF ep0_request_unknown_class] abort [OF ep0_request_string_assert]
    by blast
qed

text \<open>
  Counterexample to C4 as stated: a GET_DESCRIPTOR for the descriptor type \<open>0x0F\<close>, which
  the dispatcher does not handle, ends the process; no stall is issued.
\<close>

theorem unsupported_descriptor_counterexample:
  "ep0_loop_body (control_with 0x80 6 0x0F00 0 5) initial_globals
     = ([EVENT_FETCH], Inl Exit_failure)"
proof -
  let ?e = "control_with 0x80 6 0x0F00 0 5"
  have "0 \<le> event_fetch_rv ?e" and "uint (event_type ?e) = USB_RAW_EVENT_CONTROL"
    by (simp_all add: example_inputs program_values)
  moreover have "ep0_request ?e initial_globals (event_ctrl ?e) (stack_io ?e)
                   = ([], Inl Exit_failure)"
    by (rule ep0_request_unknown_descriptor)
      (simp_all add: request_vocabulary ch9_values program_values example_inputs)
  ultimately show ?thesis by (simp add: ep0_loop_body_fatal)
qed

theorem unrecognised_request_outcome_witness:
  "0 \<le> event_fetch_rv (control_with 0x80 6 0x0304 0x0409 255)
   \<and> uint (event_type (control_with 0x80 6 0x0304 0x0409 255)) = USB_RAW_EVENT_CONTROL
   \<and> stall_shape (event_ctrl (control_with 0x80 6 0x0304 0x0409 255))
   \<and> EP0_STALL \<in> set (fst (ep0_loop_body (control_with 0x80 6 0x0304 0x0409 255) initial_globals))
   \<and> ep0_loop_body (control_with 0x80 6 0x0304 0x0409 255) initial_globals
       = ([EVENT_FETCH, EP0_STALL], Inr initial_globals)
   \<and> ep0_loop_body (control_with 0x80 6 0x2100 0 9) initial_globals
       = ([EVENT_FETCH], Inl Exit_failure)
   \<and> ep0_loop_body (control_with 0x80 0 0 0 2) initial_globals
       = ([EVENT_FETCH], Inl Exit_failure)
   \<and> ep0_loop_body (control_with 0xA1 1 0x0106 0 8) initial_globals
       = ([EVENT_FETCH], Inl Exit_failure)
   \<and> ep0_loop_body (control_with 0xC0 1 0 0 8) initial_globals
       = ([EVENT_FETCH], Inl Exit_failure)
   \<and> ep0_loop_body (control_with 0xE0 1 0 0 8) initial_globals
       = ([EVENT_FETCH], Inl Exit_failure)
   \<and> ep0_loop_body (control_with 0x80 6 0x0301 0x0809 255) initial_globals
       = ([EVENT_FETCH], Inl Assertion_failed)"
proof -
  have f: "0 \<le> event_fetch_rv (control_with rt rq v i l)" for rt rq v i l
    by (simp add: example_inputs)
  have t: "uint (event_type (control_with rt rq v i l)) = USB_RAW_EVENT_CONTROL" for rt rq v i l
    by (simp add: example_inputs program_values)
  note o = unrecognised_request_outcome [OF f t, of _ _ _ _ _ initial_globals]
  have s: "stall_shape (event_ctrl (control_with 0x80 6 0x0304 0x0409 255))"
    by (simp add: stall_shape_def unknown_string_def request_vocabulary ch9_values
        program_values example_inputs)
  have 0: "EP0_STALL \<in> set (fst (ep0_loop_body (control_with 0x80 6 0x0304 0x0409 255)
                                   initial_globals))"
    using o [of "0x80" 6 "0x0304" "0x0409" 255] s by blast
  have 1: "ep0_loop_body (control_with 0x80 6 0x0304 0x0409 255) initial_globals
       = ([EVENT_FETCH, EP0_STALL], Inr initial_globals)"
    using o [of "0x80" 6 "0x0304" "0x0409" 255] s by (simp add: example_inputs)
  have 2: "ep0_loop_body (control_with 0x80 6 0x2100 0 9) initial_globals
       = ([EVENT_FETCH], Inl Exit_failure)"
    using o [of "0x80" 6 "0x2100" 0 9]
    by (simp add: request_vocabulary ch9_values program_values example_inputs)
  have 3: "ep0_loop_body (control_with 0x80 0 0 0 2) initial_globals
       = ([EVENT_FETCH], Inl Exit_failure)"
    using o [of "0x80" 0 0 0 2]
    by (simp add: request_vocabulary ch9_values program_values example_inputs)
  have 4: "ep0_loop_body (control_with 0xA1 1 0x0106 0 8) initial_globals
       = ([EVENT_FETCH], Inl Exit_failure)"
    using o [of "0xA1" 1 "0x0106" 0 8]
    by (simp add: request_vocabulary ch9_values program_values example_inputs)
  have 5: "ep0_loop_body (control_with 0xC0 1 0 0 8) initial_globals
       = ([EVENT_FETCH], Inl Exit_failure)"
    using o [of "0xC0" 1 0 0 8]
    by (simp add: request_vocabulary ch9_values program_values example_inputs)
  have 6: "ep0_loop_body (control_with 0xE0 1 0 0 8) initial_globals
       = ([EVENT_FETCH], Inl Exit_failure)"
    using o [of "0xE0" 1 0 0 8]
    by (simp add: request_vocabulary ch9_values program_values example_inputs)
  have 7: "ep0_loop_body (control_with 0x80 6 0x0301 0x0809 255) initial_globals
       = ([EVENT_FETCH], Inl Assertion_failed)"
    using o [of "0x80" 6 "0x0301" "0x0809" 255]
    by (simp add: request_vocabulary ch9_values program_values example_inputs)
  from f [of "0x80" 6 "0x0304" "0x0409" 255] t [of "0x80" 6 "0x0304" "0x0409" 255]
    s 0 1 2 3 4 5 6 7
  show ?thesis by blast
qed

subsection \<open>The start of the report generator\<close>

lemma threads_created_simps:
  "threads_created [] = 0"
  "threads_created (a # t) = (if a = PTHREAD_CREATE True then 1 else 0) + threads_created t"
  "threads_created (t @ t') = threads_created t + threads_created t'"
  by (simp_all add: threads_created_def)

lemma process_eps_info_threads:
  assumes "process_eps_info env g = (t, r)"
  shows "threads_created t = 0 \<and> (\<forall>g'. r = Inr g' \<longrightarrow> ep_int_in_thread g' = ep_int_in_thread g)"
  using assms
  by (auto simp add: process_eps_info_def usb_raw_eps_info_def ioctl_def bind_io_def pure_io_def
      Let_def threads_created_simps split: if_splits sum.splits prod.splits)

lemma ep0_request_threads:
  assumes "ep0_request env g c io = (t, r)"
  shows "(threads_created t = 0
            \<and> (\<forall>reply io' g'. r = Inr (reply, io', g') \<longrightarrow> ep_int_in_thread g' = ep_int_in_thread g))
       \<or> (ep_int_in_thread g = 0 \<and> t = [PTHREAD_CREATE (pthread_create_ok env)]
            \<and> (\<exists>io'. r = Inr (True, io', g\<lparr>ep_int_in_thread := pthread_create_handle env\<rparr>)))"
  using assms
  by (auto simp add: ep0_request_def pure_io_def bind_io_def ioctl_def Let_def
      usb_raw_ep_enable_def usb_raw_vbus_draw_def usb_raw_configure_def threads_created_simps
      split: if_splits sum.splits prod.splits)


lemma ep0_loop_body_threads:
  assumes "ep0_loop_body env g = (t, r)"
  shows "(threads_created t = 0
            \<and> (\<forall>g'. r = Inr g' \<longrightarrow> ep_int_in_thread g' = ep_int_in_thread g))
       \<or> (ep_int_in_thread g = 0
            \<and> threads_created t = (if pthread_create_ok env then 1 else 0)
            \<and> (\<forall>g'. r = Inr g' \<longrightarrow> ep_int_in_thread g' = pthread_create_handle env))"
proof (cases "event_fetch_rv env < 0")
  case True
  then have "ep0_loop_body env g = ([EVENT_FETCH], Inl Exit_failure)"
    by (simp add: ep0_loop_body_def usb_raw_event_fetch_def ioctl_failed bind_io_Inl)
  with assms show ?thesis by (auto simp add: threads_created_simps)
next
  case False
  then have fetch: "usb_raw_event_fetch env = ([EVENT_FETCH], Inr (event_fetch_rv env))"
    by (simp add: usb_raw_event_fetch_def ioctl_ok)
  obtain t1 r1 where p: "(if uint (event_type env) = USB_RAW_EVENT_CONNECT
       then process_eps_info env g else pure_io (Inr g)) = (t1, r1)"
    by force
  then have p1: "threads_created t1 = 0"
    and p2: "\<And>g1. r1 = Inr g1 \<Longrightarrow> ep_int_in_thread g1 = ep_int_in_thread g"
    using process_eps_info_threads [of env g t1 r1]
    by (auto simp add: pure_io_def threads_created_simps split: if_splits)
  note A = assms [unfolded ep0_loop_body_def fetch p]
  show ?thesis
  proof (cases r1)
    case (Inl f)
    with A have "t = EVENT_FETCH # t1" and "r = Inl f"
      by (simp_all add: bind_io_Inr bind_io_Inl)
    with p1 show ?thesis by (auto simp add: threads_created_simps)
  next
    case (Inr g1)
    note B = A [unfolded Inr]
    show ?thesis
    proof (cases "uint (event_type env) \<noteq> USB_RAW_EVENT_CONTROL")
      case True
      with B have "t = EVENT_FETCH # t1" and "r = Inr g1"
        by (simp_all add: bind_io_Inr pure_io_def)
      with p1 p2 [OF Inr] show ?thesis by (auto simp add: threads_created_simps)
    next
      case False
      obtain t2 r2 where q: "ep0_request env g1 (event_ctrl env) (stack_io env) = (t2, r2)"
        by force
      have tail: "\<exists>t3 r3. (t, r) = (EVENT_FETCH # t1 @ t2 @ t3, r3)
                    \<and> threads_created t3 = 0
                    \<and> (\<forall>g'. r3 = Inr g' \<longrightarrow> (\<exists>reply io'. r2 = Inr (reply, io', g')))"
      proof (cases r2)
        case (Inl f)
        with B False have "t = EVENT_FETCH # t1 @ t2 @ []" and "r = Inl f"
          by (simp_all add: q bind_io_Inr bind_io_Inl Let_def)
        then show ?thesis by (auto simp add: threads_created_simps)
      next
        case r2: (Inr v)
        obtain reply io' g2 where v: "v = (reply, io', g2)" by (cases v)
        from B False show ?thesis
          by (auto simp add: q r2 v bind_io_Inr bind_io_Inl Let_def
              usb_raw_ep0_stall_def usb_raw_ep0_write_def usb_raw_ep0_read_def ioctl_def
              pure_io_def threads_created_simps split: if_splits)
      qed
      then obtain t3 r3 where t: "t = EVENT_FETCH # t1 @ t2 @ t3" and r: "r = r3"
        and t3: "threads_created t3 = 0"
        and r3: "\<And>g'. r3 = Inr g' \<Longrightarrow> \<exists>reply io'. r2 = Inr (reply, io', g')"
        by blast
      have count: "threads_created t = threads_created t2"
        by (simp add: t threads_created_simps p1 t3)
      from ep0_request_threads [OF q] show ?thesis
      proof
        assume a: "threads_created t2 = 0
            \<and> (\<forall>reply io' g'. r2 = Inr (reply, io', g') \<longrightarrow> ep_int_in_thread g' = ep_int_in_thread g1)"
        have "ep_int_in_thread g' = ep_int_in_thread g" if "r = Inr g'" for g'
          using that r r3 [of g'] a p2 [OF Inr] by auto
        with a count show ?thesis by simp
      next
        assume a: "ep_int_in_thread g1 = 0 \<and> t2 = [PTHREAD_CREATE (pthread_create_ok env)]
            \<and> (\<exists>io'. r2 = Inr (True, io', g1\<lparr>ep_int_in_thread := pthread_create_handle env\<rparr>))"
        have "ep_int_in_thread g' = pthread_create_handle env" if "r = Inr g'" for g'
          using that r r3 [of g'] a by auto
        moreover have "ep_int_in_thread g = 0" using a p2 [OF Inr] by simp
        moreover have "threads_created t = (if pthread_create_ok env then 1 else 0)"
          using a count by (simp add: threads_created_simps)
        ultimately show ?thesis by simp
      qed
    qed
  qed
qed


lemma ep0_loop_threads:
  assumes "\<forall>env \<in> set envs. pthread_create_ok env \<longrightarrow> pthread_create_handle env \<noteq> 0"
  shows "threads_created (fst (ep0_loop envs g)) \<le> 1
       \<and> (ep_int_in_thread g \<noteq> 0 \<longrightarrow> threads_created (fst (ep0_loop envs g)) = 0)"
  using assms
proof (induction envs arbitrary: g)
  case Nil
  show ?case by (simp add: pure_io_def threads_created_simps)
next
  case (Cons env envs)
  obtain t r where b: "ep0_loop_body env g = (t, r)" by force
  have handle: "pthread_create_ok env \<Longrightarrow> pthread_create_handle env \<noteq> 0"
    using Cons.prems by simp
  have IH: "threads_created (fst (ep0_loop envs g')) \<le> 1
       \<and> (ep_int_in_thread g' \<noteq> 0 \<longrightarrow> threads_created (fst (ep0_loop envs g')) = 0)" for g'
    using Cons.IH Cons.prems by simp
  show ?case
  proof (cases r)
    case (Inl f)
    then have "fst (ep0_loop (env # envs) g) = t" by (simp add: b bind_io_Inl)
    with ep0_loop_body_threads [OF b] show ?thesis by auto
  next
    case (Inr g')
    then have run: "threads_created (fst (ep0_loop (env # envs) g))
                 = threads_created t + threads_created (fst (ep0_loop envs g'))"
      by (simp add: b bind_io_Inr threads_created_simps)
    from ep0_loop_body_threads [OF b] show ?thesis
    proof
      assume "threads_created t = 0
            \<and> (\<forall>g'. r = Inr g' \<longrightarrow> ep_int_in_thread g' = ep_int_in_thread g)"
      then have "threads_created t = 0" and "ep_int_in_thread g' = ep_int_in_thread g"
        using Inr by simp_all
      with run IH [of g'] show ?thesis by simp
    next
      assume a: "ep_int_in_thread g = 0
            \<and> threads_created t = (if pthread_create_ok env then 1 else 0)
            \<and> (\<forall>g'. r = Inr g' \<longrightarrow> ep_int_in_thread g' = pthread_create_handle env)"
      then have h: "ep_int_in_thread g' = pthread_create_handle env" using Inr by simp
      show ?thesis
      proof (cases "pthread_create_ok env")
        case True
        then have "ep_int_in_thread g' \<noteq> 0" using h handle by simp
        then have "threads_created (fst (ep0_loop envs g')) = 0" using IH [of g'] by simp
        with a True run show ?thesis by simp
      next
        case False
        with a run IH [of g'] show ?thesis by simp
      qed
    qed
  qed
qed

text \<open>
  C6. Provided the thread library never hands out the handle 0 for a thread it has
  created (the handle is what the guard \<open>!ep_int_in_thread\<close> tests), every run of the event
  loop from the initial globals creates at most one generator thread, whatever the events
  and however many SET_IDLE requests are among them. A SET_IDLE request handled while the
  handle is 0 calls \<open>pthread_create\<close> once and stores the handle; a SET_IDLE request handled
  while the handle is nonzero makes no call and leaves the globals as they are.
\<close>

theorem generator_started_at_most_once:
  assumes "\<forall>env \<in> set envs. pthread_create_ok env \<longrightarrow> pthread_create_handle env \<noteq> 0"
  shows "threads_created (fst (ep0_loop envs initial_globals)) \<le> 1
       \<and> (set_idle c \<and> ep_int_in_thread g = 0 \<longrightarrow>
            ep0_request env g c io =
              ([PTHREAD_CREATE (pthread_create_ok env)],
               Inr (True, io\<lparr>inner_length := 0\<rparr>,
                    g\<lparr>ep_int_in_thread := pthread_create_handle env\<rparr>)))
       \<and> (set_idle c \<and> ep_int_in_thread g \<noteq> 0 \<longrightarrow>
            ep0_request env g c io = ([], Inr (True, io\<lparr>inner_length := 0\<rparr>, g)))"
  using ep0_loop_threads [OF assms, of initial_globals] ep0_request_set_idle [of c env g io]
  by (simp add: pure_io_def)

lemma two_set_idle_requests:
  "ep0_loop [control_with 0x21 0x0A 0 0 0, control_with 0x21 0x0A 0 0 0] initial_globals
     = ([EVENT_FETCH, PTHREAD_CREATE True, EP0_READ 0, EVENT_FETCH, EP0_READ 0],
        Inr (initial_globals\<lparr>ep_int_in_thread := 0x7f0000001000\<rparr>))"
proof -
  let ?e = "control_with 0x21 0x0A 0 0 0"
  have f: "0 \<le> event_fetch_rv ?e" and t: "uint (event_type ?e) = USB_RAW_EVENT_CONTROL"
    by (simp_all add: example_inputs program_values)
  have i: "set_idle (event_ctrl ?e)"
    by (simp add: request_vocabulary ch9_values program_values example_inputs)
  have out: "\<not> uint (bRequestType (event_ctrl ?e)) AND USB_DIR_IN \<noteq> 0"
    by (simp add: program_values example_inputs)
  have rv: "\<not> ep0_read_rv ?e < 0" "pthread_create_ok ?e"
    "pthread_create_handle ?e = 0x7f0000001000"
    by (simp_all add: example_inputs)
  have 1: "ep0_loop_body ?e initial_globals
             = ([EVENT_FETCH, PTHREAD_CREATE True, EP0_READ 0],
                Inr (initial_globals\<lparr>ep_int_in_thread := 0x7f0000001000\<rparr>))"
    using ep0_loop_body_transfer [OF f t, of initial_globals
        "[PTHREAD_CREATE True]" _ "initial_globals\<lparr>ep_int_in_thread := 0x7f0000001000\<rparr>", OF _ refl]
      ep0_request_set_idle [OF i, of ?e initial_globals "stack_io ?e"] out rv
    by (simp add: initial_globals_def)
  have 2: "ep0_loop_body ?e (initial_globals\<lparr>ep_int_in_thread := 0x7f0000001000\<rparr>)
             = ([EVENT_FETCH, EP0_READ 0],
                Inr (initial_globals\<lparr>ep_int_in_thread := 0x7f0000001000\<rparr>))"
    using ep0_loop_body_transfer [OF f t, of "initial_globals\<lparr>ep_int_in_thread := 0x7f0000001000\<rparr>"
        "[]" _ "initial_globals\<lparr>ep_int_in_thread := 0x7f0000001000\<rparr>", OF _ refl]
      ep0_request_set_idle [OF i, of ?e "initial_globals\<lparr>ep_int_in_thread := 0x7f0000001000\<rparr>"
        "stack_io ?e"] out rv
    by (simp add: pure_io_def)
  show ?thesis by (simp add: 1 2 bind_io_Inr pure_io_def)
qed

theorem generator_started_at_most_once_witness:
  "pthread_create_ok (control_with 0x21 0x0A 0 0 0)
   \<and> pthread_create_handle (control_with 0x21 0x0A 0 0 0) \<noteq> 0
   \<and> set_idle (event_ctrl (control_with 0x21 0x0A 0 0 0))
   \<and> threads_created
       (fst (ep0_loop [control_with 0x21 0x0A 0 0 0, control_with 0x21 0x0A 0 0 0]
              initial_globals)) = 1
   \<and> ep0_request quiet_env initial_globals (event_ctrl (control_with 0x21 0x0A 0 0 0)) zero_io
       = ([PTHREAD_CREATE True],
          Inr (True, zero_io, initial_globals\<lparr>ep_int_in_thread := 0x7f0000001000\<rparr>))
   \<and> ep0_request quiet_env (initial_globals\<lparr>ep_int_in_thread := 0x7f0000001000\<rparr>)
         (event_ctrl (control_with 0x21 0x0A 0 0 0)) zero_io
       = ([], Inr (True, zero_io, initial_globals\<lparr>ep_int_in_thread := 0x7f0000001000\<rparr>))"
proof -
  let ?e = "control_with 0x21 0x0A 0 0 0"
  have ok: "pthread_create_ok ?e" and h: "pthread_create_handle ?e \<noteq> 0"
    by (simp_all add: example_inputs)
  then have hyp: "\<forall>env \<in> set [?e, ?e]. pthread_create_ok env \<longrightarrow> pthread_create_handle env \<noteq> 0"
    by simp
  have i: "set_idle (event_ctrl ?e)"
    by (simp add: request_vocabulary ch9_values program_values example_inputs)
  have n: "threads_created (fst (ep0_loop [?e, ?e] initial_globals)) = 1"
    by (simp only: two_set_idle_requests) (simp add: threads_created_simps)
  have z: "zero_io\<lparr>inner_length := 0\<rparr> = zero_io" by (simp add: zero_io_def)
  from generator_started_at_most_once
      [OF hyp, of "event_ctrl ?e" initial_globals quiet_env zero_io] i
  have 1: "ep0_request quiet_env initial_globals (event_ctrl ?e) zero_io
       = ([PTHREAD_CREATE True],
          Inr (True, zero_io, initial_globals\<lparr>ep_int_in_thread := 0x7f0000001000\<rparr>))"
    by (simp add: z) (simp add: example_inputs)
  from generator_started_at_most_once
      [OF hyp, of "event_ctrl ?e" "initial_globals\<lparr>ep_int_in_thread := 0x7f0000001000\<rparr>"
        quiet_env zero_io] i
  have 2: "ep0_request quiet_env (initial_globals\<lparr>ep_int_in_thread := 0x7f0000001000\<rparr>)
         (event_ctrl ?e) zero_io
       = ([], Inr (True, zero_io, initial_globals\<lparr>ep_int_in_thread := 0x7f0000001000\<rparr>))"
    by (simp add: z)
  from ok h i n 1 2 show ?thesis by blast
qed

subsection \<open>Repeated SET_CONFIGURATION\<close>

lemma set_configuration_request:
  assumes "set_configuration c"
  shows "ep0_request env g c io =
           (if ep_enable_rv env < 0 then ([EP_ENABLE (usb_endpoint g)], Inl Exit_failure)
            else if vbus_draw_rv env < 0
              then ([EP_ENABLE (usb_endpoint g), VBUS_DRAW 0x32], Inl Exit_failure)
            else if configure_rv env < 0
              then ([EP_ENABLE (usb_endpoint g), VBUS_DRAW 0x32, CONFIGURE], Inl Exit_failure)
            else ([EP_ENABLE (usb_endpoint g), VBUS_DRAW 0x32, CONFIGURE],
                  Inr (True, io\<lparr>inner_length := 0\<rparr>, g\<lparr>ep_int_in := ep_enable_rv env\<rparr>)))"
  by (simp add: ep0_request_set_configuration [OF assms] usb_raw_ep_enable_def
      usb_raw_vbus_draw_def usb_raw_configure_def ioctl_def bind_io_def pure_io_def usb_config_def)

text \<open>
  C5, amended. When a SET_CONFIGURATION request has been handled and a second one follows,
  the second asks the kernel to enable the interrupt-IN endpoint again, with the same
  descriptor: nothing records that the endpoint is enabled. If the kernel refuses, the
  process ends by \<open>exit\<close>; otherwise the power draw and the configuration are issued
  again and \<open>ep_int_in\<close> takes the new return value. Neither request allocates an address:
  the endpoint descriptor and the address counter stay as they were.
\<close>

theorem set_configuration_enables_each_time:
  assumes "set_configuration c1" and "set_configuration c2"
    and "ep0_request env1 g c1 io1 = (t1, Inr (reply1, io1', g1))"
  shows "t1 = [EP_ENABLE (usb_endpoint g), VBUS_DRAW 0x32, CONFIGURE]
       \<and> g1 = g\<lparr>ep_int_in := ep_enable_rv env1\<rparr>
       \<and> usb_endpoint g1 = usb_endpoint g \<and> static_addr g1 = static_addr g
       \<and> ep0_request env2 g1 c2 io2 =
           (if ep_enable_rv env2 < 0 then ([EP_ENABLE (usb_endpoint g)], Inl Exit_failure)
            else if vbus_draw_rv env2 < 0
              then ([EP_ENABLE (usb_endpoint g), VBUS_DRAW 0x32], Inl Exit_failure)
            else if configure_rv env2 < 0
              then ([EP_ENABLE (usb_endpoint g), VBUS_DRAW 0x32, CONFIGURE], Inl Exit_failure)
            else ([EP_ENABLE (usb_endpoint g), VBUS_DRAW 0x32, CONFIGURE],
                  Inr (True, io2\<lparr>inner_length := 0\<rparr>, g\<lparr>ep_int_in := ep_enable_rv env2\<rparr>)))"
proof -
  from assms(3) have first: "t1 = [EP_ENABLE (usb_endpoint g), VBUS_DRAW 0x32, CONFIGURE]"
    "g1 = g\<lparr>ep_int_in := ep_enable_rv env1\<rparr>"
    by (simp_all add: set_configuration_request [OF assms(1)] split: if_splits)
  then show ?thesis
    by (simp add: set_configuration_request [OF assms(2)])
qed

lemma set_configuration_event:
  assumes "0 \<le> event_fetch_rv env" and "uint (event_type env) = USB_RAW_EVENT_CONTROL"
    and "set_configuration (event_ctrl env)"
    and "uint (bRequestType (event_ctrl env)) AND USB_DIR_IN = 0"
    and "0 \<le> vbus_draw_rv env" and "0 \<le> configure_rv env" and "0 \<le> ep0_read_rv env"
  shows "ep0_loop_body env g =
           (if ep_enable_rv env < 0 then ([EVENT_FETCH, EP_ENABLE (usb_endpoint g)], Inl Exit_failure)
            else ([EVENT_FETCH, EP_ENABLE (usb_endpoint g), VBUS_DRAW 0x32, CONFIGURE, EP0_READ 0],
                  Inr (g\<lparr>ep_int_in := ep_enable_rv env\<rparr>)))"
proof (cases "ep_enable_rv env < 0")
  case True
  then have "ep0_request env g (event_ctrl env) (stack_io env)
               = ([EP_ENABLE (usb_endpoint g)], Inl Exit_failure)"
    by (simp add: set_configuration_request [OF assms(3)])
  from ep0_loop_body_fatal [OF assms(1,2) this] True show ?thesis by simp
next
  case False
  then have "ep0_request env g (event_ctrl env) (stack_io env)
               = ([EP_ENABLE (usb_endpoint g), VBUS_DRAW 0x32, CONFIGURE],
                  Inr (True, (stack_io env)\<lparr>inner_length := 0\<rparr>, g\<lparr>ep_int_in := ep_enable_rv env\<rparr>))"
    using assms(5,6) by (simp add: set_configuration_request [OF assms(3)])
  from ep0_loop_body_transfer [OF assms(1,2) this refl] False assms(4,7) show ?thesis by simp
qed

text \<open>
  Counterexample to C5 as stated: two SET_CONFIGURATION events in a row make the loop
  issue the endpoint-enable call twice, and when the kernel answers the second call with
  an error (\<open>-EBUSY\<close> is \<open>-16\<close>) the process ends.
\<close>

theorem second_set_configuration_counterexample:
  "enables (fst (ep0_loop [control_with 0 9 1 0 0, control_with 0 9 1 0 0] assigned_globals)) = 2
   \<and> snd (ep0_loop [control_with 0 9 1 0 0, (control_with 0 9 1 0 0)\<lparr>ep_enable_rv := - 16\<rparr>]
            assigned_globals) = Inl Exit_failure"
proof -
  let ?e = "control_with 0 9 1 0 0"
  let ?busy = "(control_with 0 9 1 0 0)\<lparr>ep_enable_rv := - 16\<rparr>"
  have e: "ep0_loop_body ?e g =
             ([EVENT_FETCH, EP_ENABLE (usb_endpoint g), VBUS_DRAW 0x32, CONFIGURE, EP0_READ 0],
              Inr (g\<lparr>ep_int_in := 0\<rparr>))" for g
    using set_configuration_event [of ?e g]
    by (simp add: request_vocabulary ch9_values program_values example_inputs)
  have b: "ep0_loop_body ?busy g = ([EVENT_FETCH, EP_ENABLE (usb_endpoint g)], Inl Exit_failure)"
    for g
    using set_configuration_event [of ?busy g]
    by (simp add: request_vocabulary ch9_values program_values example_inputs)
  show ?thesis
    by (simp add: e b bind_io_Inr bind_io_Inl pure_io_def enables_def)
qed

theorem set_configuration_enables_each_time_witness:
  "set_configuration (event_ctrl (control_with 0 9 1 0 0))
   \<and> ep0_request quiet_env assigned_globals (event_ctrl (control_with 0 9 1 0 0)) zero_io
       = ([EP_ENABLE (usb_endpoint assigned_globals), VBUS_DRAW 0x32, CONFIGURE],
          Inr (True, zero_io, assigned_globals\<lparr>ep_int_in := 0\<rparr>))
   \<and> ep0_request quiet_env (assigned_globals\<lparr>ep_int_in := 0\<rparr>)
         (event_ctrl (control_with 0 9 1 0 0)) zero_io
       = ([EP_ENABLE (usb_endpoint assigned_globals), VBUS_DRAW 0x32, CONFIGURE],
          Inr (True, zero_io, assigned_globals\<lparr>ep_int_in := 0\<rparr>))
   \<and> ep0_request (quiet_env\<lparr>ep_enable_rv := - 16\<rparr>) (assigned_globals\<lparr>ep_int_in := 0\<rparr>)
         (event_ctrl (control_with 0 9 1 0 0)) zero_io
       = ([EP_ENABLE (usb_endpoint assigned_globals)], Inl Exit_failure)"
proof -
  let ?c = "event_ctrl (control_with 0 9 1 0 0)"
  have s: "set_configuration ?c"
    by (simp add: request_vocabulary ch9_values program_values example_inputs)
  have z: "zero_io\<lparr>inner_length := 0\<rparr> = zero_io" by (simp add: zero_io_def)
  have first: "ep0_request quiet_env assigned_globals ?c zero_io
       = ([EP_ENABLE (usb_endpoint assigned_globals), VBUS_DRAW 0x32, CONFIGURE],
          Inr (True, zero_io, assigned_globals\<lparr>ep_int_in := 0\<rparr>))"
    by (simp add: set_configuration_request [OF s] z) (simp add: quiet_env_def)
  from set_configuration_enables_each_time [OF s s first, of quiet_env zero_io]
  have second: "ep0_request quiet_env (assigned_globals\<lparr>ep_int_in := 0\<rparr>) ?c zero_io
       = ([EP_ENABLE (usb_endpoint assigned_globals), VBUS_DRAW 0x32, CONFIGURE],
          Inr (True, zero_io, assigned_globals\<lparr>ep_int_in := 0\<rparr>))"
    by (simp add: z quiet_env_def)
  from set_configuration_enables_each_time
    [OF s s first, of "quiet_env\<lparr>ep_enable_rv := - 16\<rparr>" zero_io]
  have busy: "ep0_request (quiet_env\<lparr>ep_enable_rv := - 16\<rparr>)
         (assigned_globals\<lparr>ep_int_in := 0\<rparr>) ?c zero_io
       = ([EP_ENABLE (usb_endpoint assigned_globals)], Inl Exit_failure)"
    by (simp add: quiet_env_def)
  from s first second busy show ?thesis by blast
qed

end
